theory Spec2Isabelle
  imports Main "HOL-Library.Word"
begin

section \<open>Machine integers, failures and tensors\<close>

text \<open>
  The decoding core of \<^verbatim>\<open>src/lm_encoding.cpp\<close> works on \<^verbatim>\<open>ov::Tensor\<close> buffers of
  \<^verbatim>\<open>int64_t\<close> and on \<^verbatim>\<open>std::vector<int32_t>\<close> beam mappings. Element values are
  machine words. Sizes and offsets are \<^verbatim>\<open>size_t\<close>: natural numbers below \<open>2 ^ 64\<close>,
  every arithmetic result reduced modulo \<open>2 ^ 64\<close>.
\<close>

type_synonym int64 = "64 word"
type_synonym int32 = "32 word"

definition size_t :: "nat \<Rightarrow> nat" where
  "size_t n = n mod 2 ^ 64"

text \<open>\<^verbatim>\<open>a - b\<close> on two \<^verbatim>\<open>size_t\<close> values wraps around below zero.\<close>

definition size_t_sub :: "nat \<Rightarrow> nat \<Rightarrow> nat" where
  "size_t_sub a b = (size_t a + 2 ^ 64 - size_t b) mod 2 ^ 64"

text \<open>The implicit conversion of an \<^verbatim>\<open>int32_t\<close> operand to \<^verbatim>\<open>size_t\<close>: sign extension,
  then the unsigned reading (\<open>-1\<close> becomes \<open>2 ^ 64 - 1\<close>).\<close>

definition size_t_of_int32 :: "int32 \<Rightarrow> nat" where
  "size_t_of_int32 b = unat (scast b :: 64 word)"

text \<open>
  Two ways a call can go wrong. \<open>Exception_out_of_range\<close> is the \<^verbatim>\<open>std::out_of_range\<close>
  that \<^verbatim>\<open>.at()\<close> throws: a structured error the caller can catch.
  \<open>Out_of_bounds_access\<close> marks a read or write outside a buffer through a raw pointer
  or an unchecked \<^verbatim>\<open>operator[]\<close>: the C++ gives no error there, its behaviour is undefined.
\<close>

datatype failure = Exception_out_of_range | Out_of_bounds_access

record 'a tensor =
  shape :: "nat list"
  data :: "'a list"

text \<open>\<^verbatim>\<open>shape.at(i)\<close> and \<^verbatim>\<open>vector.at(i)\<close>: checked access.\<close>

definition at :: "'a list \<Rightarrow> nat \<Rightarrow> failure + 'a" where
  "at xs i = (if i < length xs then Inr (xs ! i) else Inl Exception_out_of_range)"

text \<open>
  \<^verbatim>\<open>set_shape\<close> resizes the tensor's storage; what the resized buffer holds before it is
  written is whatever the storage held (the old contents when the storage is reused, stale
  memory when it is reallocated). The argument \<open>mem\<close> stands for that content, cell by cell.
\<close>

definition set_shape :: "(nat \<Rightarrow> 'a) \<Rightarrow> nat list \<Rightarrow> 'a tensor" where
  "set_shape mem new_shape = \<lparr>shape = new_shape, data = map mem [0..<prod_list new_shape]\<rparr>"

text \<open>\<^verbatim>\<open>std::memcpy(dest + doff, src + soff, n * sizeof(T))\<close> between two distinct buffers.\<close>

definition memcpy :: "'a list \<Rightarrow> nat \<Rightarrow> 'a list \<Rightarrow> nat \<Rightarrow> nat \<Rightarrow> failure + 'a list" where
  "memcpy dest doff src soff n =
     (if soff + n \<le> length src \<and> doff + n \<le> length dest
      then Inr (take doff dest @ take n (drop soff src) @ drop (doff + n) dest)
      else Inl Out_of_bounds_access)"

text \<open>\<^verbatim>\<open>buffer[i] = v\<close> through a raw pointer.\<close>

definition store :: "'a list \<Rightarrow> nat \<Rightarrow> 'a \<Rightarrow> failure + 'a list" where
  "store buffer i v = (if i < length buffer then Inr (buffer[i := v]) else Inl Out_of_bounds_access)"

text \<open>Sequencing of fallible steps: the first failure ends the call.\<close>

definition and_then :: "failure + 'a \<Rightarrow> ('a \<Rightarrow> failure + 'b) \<Rightarrow> failure + 'b" where
  "and_then m f = (case m of Inl e \<Rightarrow> Inl e | Inr x \<Rightarrow> f x)"

text \<open>Row \<open>r\<close> of a rank-2 tensor stored row by row.\<close>

definition tensor_row :: "'a tensor \<Rightarrow> nat \<Rightarrow> 'a list" where
  "tensor_row t r = take (shape t ! 1) (drop (r * (shape t ! 1)) (data t))"

text \<open>A tensor whose buffer matches its shape; dimensions and element count fit \<^verbatim>\<open>size_t\<close>.\<close>

definition wf_tensor :: "'a tensor \<Rightarrow> bool" where
  "wf_tensor t \<longleftrightarrow>
     length (data t) = prod_list (shape t) \<and> prod_list (shape t) < 2 ^ 64 \<and>
     list_all (\<lambda>d. d < 2 ^ 64) (shape t)"

section \<open>Beam State Updater\<close>

subsection \<open>\<^verbatim>\<open>update_attention_mask_with_beams\<close>\<close>

text \<open>
  One iteration of the loop over \<^verbatim>\<open>beam_id\<close>: the offsets are \<^verbatim>\<open>size_t\<close> products, the
  row is copied out of the saved copy \<open>original_mask\<close> with \<^verbatim>\<open>memcpy\<close>, and the trailing
  cell of the new row is set to 1. The entry \<^verbatim>\<open>next_beams.at(beam_id)\<close> is not compared with
  the row count of the saved mask.
\<close>

definition copy_beam_row ::
  "int64 tensor \<Rightarrow> nat list \<Rightarrow> nat list \<Rightarrow> int32 list \<Rightarrow> nat \<Rightarrow> int64 list \<Rightarrow> failure + int64 list" where
  "copy_beam_row original_mask original_shape new_shape next_beams beam_id buffer =
     and_then (at next_beams beam_id) (\<lambda>b.
     and_then (at original_shape 1) (\<lambda>cols.
     and_then (at new_shape 1) (\<lambda>new_cols.
       let original_prompt_offset = size_t (size_t_of_int32 b * cols);
           result_prompt_offset = size_t (beam_id * new_cols)
       in and_then (memcpy buffer result_prompt_offset (data original_mask) original_prompt_offset cols)
            (\<lambda>buffer'. store buffer' (size_t_sub (size_t (result_prompt_offset + new_cols)) 1) 1))))"

definition copy_beam_rows ::
  "int64 tensor \<Rightarrow> nat list \<Rightarrow> nat list \<Rightarrow> int32 list \<Rightarrow> nat list \<Rightarrow> int64 list \<Rightarrow> failure + int64 list" where
  "copy_beam_rows original_mask original_shape new_shape next_beams beam_ids buffer =
     fold (\<lambda>beam_id acc. and_then acc (copy_beam_row original_mask original_shape new_shape next_beams beam_id))
       beam_ids (Inr buffer)"

definition update_attention_mask_with_beams ::
  "(nat \<Rightarrow> int64) \<Rightarrow> int64 tensor \<Rightarrow> int32 list \<Rightarrow> failure + int64 tensor" where
  "update_attention_mask_with_beams mem attention_mask next_beams =
     (let original_mask = \<lparr>shape = shape attention_mask, data = data attention_mask\<rparr>;
          original_shape = shape original_mask
      in and_then (at (shape original_mask) 1) (\<lambda>cols.
           let new_shape = [length next_beams, size_t (cols + 1)];
               resized = set_shape mem new_shape
           in and_then (copy_beam_rows original_mask original_shape new_shape next_beams
                          [0..<length next_beams] (data resized))
                (\<lambda>buffer. Inr (resized\<lparr>data := buffer\<rparr>))))"

subsection \<open>\<^verbatim>\<open>update_position_ids\<close>\<close>

text \<open>
  \<^verbatim>\<open>std::accumulate(first, last, 0)\<close>: the accumulator has the type of the literal \<^verbatim>\<open>0\<close>,
  which is \<^verbatim>\<open>int\<close> (32 bits). Each step adds an \<^verbatim>\<open>int64_t\<close> element to the widened
  accumulator and narrows the sum back to \<^verbatim>\<open>int\<close>.
\<close>

definition accumulate :: "int64 list \<Rightarrow> int32 \<Rightarrow> int32" where
  "accumulate xs init = fold (\<lambda>x acc. ucast ((scast acc :: int64) + x)) xs init"

text \<open>
  The range \<^verbatim>\<open>[mask_start, mask_start + sequence_length - 1)\<close> of the mask buffer. With
  \<^verbatim>\<open>sequence_length = 0\<close> the end pointer lies before the start and the iteration leaves
  the buffer.
\<close>

definition read_range :: "'a list \<Rightarrow> nat \<Rightarrow> nat \<Rightarrow> failure + 'a list" where
  "read_range buffer start n =
     (if start + n \<le> length buffer then Inr (take n (drop start buffer)) else Inl Out_of_bounds_access)"

definition position_of_row :: "int64 tensor \<Rightarrow> nat \<Rightarrow> nat \<Rightarrow> int64 list \<Rightarrow> failure + int64 list" where
  "position_of_row attention_mask sequence_length batch buffer =
     and_then (read_range (data attention_mask) (size_t (batch * sequence_length))
                 (size_t_sub sequence_length 1))
       (\<lambda>cells. store buffer batch (scast (accumulate cells 0)))"

definition update_position_ids ::
  "(nat \<Rightarrow> int64) \<Rightarrow> int64 tensor \<Rightarrow> int64 tensor \<Rightarrow> failure + int64 tensor" where
  "update_position_ids mem position_ids attention_mask =
     and_then (at (shape attention_mask) 0) (\<lambda>batch_size.
     and_then (at (shape attention_mask) 1) (\<lambda>sequence_length.
       let resized = set_shape mem [batch_size, 1]
       in and_then (fold (\<lambda>batch acc. and_then acc (position_of_row attention_mask sequence_length batch))
                      [0..<batch_size] (Inr (data resized)))
            (\<lambda>buffer. Inr (resized\<lparr>data := buffer\<rparr>))))"

section \<open>Sequence groups, sampling policy and compute engine\<close>

text \<open>
  \<^verbatim>\<open>SequenceGroup\<close>, \<^verbatim>\<open>Sequence\<close>, \<^verbatim>\<open>Sampler\<close> and \<^verbatim>\<open>ov::InferRequest\<close> are declared outside
  \<^verbatim>\<open>lm_encoding.cpp\<close>. An object of these classes is modelled by the record of what the
  orchestrator reads from it; the sampling policy and the compute engine, which change
  these objects, are parameters of the model.
\<close>

text \<open>\<^verbatim>\<open>GenerationFinishReason\<close>: \<^verbatim>\<open>NONE\<close>, \<^verbatim>\<open>STOP\<close> and \<^verbatim>\<open>LENGTH\<close>.\<close>

datatype generation_finish_reason = Reason_NONE | Reason_STOP | Reason_LENGTH

text \<open>A hypothesis. \<open>beam_search_score\<close> is what \<^verbatim>\<open>get_beam_search_score(sampling_params)\<close>
  returns for the parameters of the sequence's group. Scores are \<^verbatim>\<open>float\<close> values that the
  orchestrator only copies: their type is left open.\<close>

record 'f sequence =
  sequence_id :: nat
  generated_ids :: "int64 list"
  cumulative_log_probs :: 'f
  beam_search_score :: 'f
  finish_reason :: generation_finish_reason

text \<open>The two members of the sampling parameters that the orchestrator reads.\<close>

record generation_config =
  num_return_sequences :: nat
  is_beam_search :: bool

text \<open>A request. \<open>running_sequences\<close>, \<open>finished_sequences\<close>, \<open>has_finished\<close>,
  \<open>out_of_memory\<close> and \<open>handle_dropped\<close> are what the methods of these names return.\<close>

record 'f sequence_group =
  request_id :: nat
  prompt_ids :: "int64 list"
  sampling_parameters :: generation_config
  num_processed_tokens :: nat
  num_scheduled_tokens :: nat
  running_sequences :: "'f sequence list"
  finished_sequences :: "'f sequence list"
  has_finished :: bool
  out_of_memory :: bool
  handle_dropped :: bool

text \<open>Modelled from the spec: the accessors and setters of a sequence group (its class is
  not among the source files). The prompt length is the number of prompt token ids, the
  running-hypothesis count is the number of running sequences, \<^verbatim>\<open>schedule_tokens\<close> sets the
  scheduled-token count and \<^verbatim>\<open>update_processed_tokens_num\<close> sets the processed-token
  counter.\<close>

definition get_prompt_len :: "'f sequence_group \<Rightarrow> nat" where
  "get_prompt_len g = length (prompt_ids g)"

definition num_running_seqs :: "'f sequence_group \<Rightarrow> nat" where
  "num_running_seqs g = length (running_sequences g)"

definition schedule_tokens :: "nat \<Rightarrow> 'f sequence_group \<Rightarrow> 'f sequence_group" where
  "schedule_tokens n g = g\<lparr>num_scheduled_tokens := n\<rparr>"

definition update_processed_tokens_num :: "nat \<Rightarrow> 'f sequence_group \<Rightarrow> 'f sequence_group" where
  "update_processed_tokens_num n g = g\<lparr>num_processed_tokens := n\<rparr>"

text \<open>
  The vectors of \<^verbatim>\<open>SequenceGroup::Ptr\<close> hold shared pointers: \<^verbatim>\<open>sequence_groups\<close> and
  \<^verbatim>\<open>active_sequence_groups\<close> name the same objects. A vector is a list of addresses and
  the objects live in a store.
\<close>

type_synonym 'f group_store = "nat \<Rightarrow> 'f sequence_group"

text \<open>Modelled from the spec: the sampling policy owns per-request bookkeeping keyed by
  request id, and \<^verbatim>\<open>clear_request_info\<close> releases the entry of one request (no error when it
  is absent). The rest of the sampler is opaque.\<close>

record ('i, 's) sampler_state =
  request_info :: "nat \<rightharpoonup> 'i"
  sampler_internal :: 's

definition clear_request_info :: "('i, 's) sampler_state \<Rightarrow> nat \<Rightarrow> ('i, 's) sampler_state" where
  "clear_request_info s request = s\<lparr>request_info := (request_info s)(request := None)\<rparr>"

text \<open>The primary input of the engine: token ids, or embeddings of an open element type.\<close>

datatype 'e model_input = Token_ids "int64 tensor" | Embeddings "'e tensor"

definition input_shape :: "'e model_input \<Rightarrow> nat list" where
  "input_shape x = (case x of Token_ids t \<Rightarrow> shape t | Embeddings t \<Rightarrow> shape t)"

text \<open>The bound tensors of the \<^verbatim>\<open>ov::InferRequest\<close>, by name, and its internal (key/value
  cache) state.\<close>

record ('e, 'l, 'k) infer_request =
  t_input_ids :: "'e model_input option"
  t_inputs_embeds :: "'e model_input option"
  t_attention_mask :: "int64 tensor"
  t_position_ids :: "int64 tensor"
  t_beam_idx :: "int32 tensor"
  t_logits :: "'l tensor"
  kv_state :: 'k

text \<open>
  The collaborators: \<open>infer\<close> is one synchronous call of the compute engine, \<open>sample\<close> is
  \<^verbatim>\<open>Sampler::sample\<close> on a vector of groups (it changes the sampler and the groups),
  \<open>get_beam_idxs\<close> is \<^verbatim>\<open>Sampler::get_beam_idxs\<close>, and \<open>uninitialised\<close> is the content of a
  freshly allocated or resized buffer.
\<close>

record ('e, 'l, 'k, 'i, 's, 'f) collaborators =
  infer :: "('e, 'l, 'k) infer_request \<Rightarrow> ('e, 'l, 'k) infer_request"
  sample :: "('i, 's) sampler_state \<Rightarrow> 'f group_store \<Rightarrow> nat list \<Rightarrow> 'l tensor
               \<Rightarrow> ('i, 's) sampler_state \<times> 'f group_store"
  get_beam_idxs :: "('i, 's) sampler_state \<Rightarrow> 'f sequence_group \<Rightarrow> (nat \<rightharpoonup> int32)"
  uninitialised :: "nat \<Rightarrow> int64"

text \<open>Unchecked \<^verbatim>\<open>operator[]\<close> of a vector, and \<^verbatim>\<open>operator[]\<close>, \<^verbatim>\<open>at\<close> and \<^verbatim>\<open>insert\<close> of a
  \<^verbatim>\<open>std::map\<close>: \<^verbatim>\<open>operator[]\<close> inserts a zero under a missing key, \<^verbatim>\<open>at\<close> throws on a
  missing key, \<^verbatim>\<open>insert\<close> keeps the entry of a key that is present.\<close>

definition subscript :: "'a list \<Rightarrow> nat \<Rightarrow> failure + 'a" where
  "subscript xs i = (if i < length xs then Inr (xs ! i) else Inl Out_of_bounds_access)"

definition map_subscript :: "(nat \<rightharpoonup> 'v::zero) \<Rightarrow> nat \<Rightarrow> 'v \<times> (nat \<rightharpoonup> 'v)" where
  "map_subscript m k = (case m k of None \<Rightarrow> (0, m(k \<mapsto> 0)) | Some v \<Rightarrow> (v, m))"

definition map_at :: "(nat \<rightharpoonup> 'v) \<Rightarrow> nat \<Rightarrow> failure + 'v" where
  "map_at m k = (case m k of None \<Rightarrow> Inl Exception_out_of_range | Some v \<Rightarrow> Inr v)"

definition map_insert :: "(nat \<rightharpoonup> 'v) \<Rightarrow> nat \<Rightarrow> 'v \<Rightarrow> (nat \<rightharpoonup> 'v)" where
  "map_insert m k v = (case m k of None \<Rightarrow> m(k \<mapsto> v) | Some _ \<Rightarrow> m)"

section \<open>Decode Loop Orchestrator: \<^verbatim>\<open>get_lm_encoded_results\<close>\<close>

record 'f encoded_results =
  tokens :: "int64 list list"
  scores :: "'f list"

text \<open>What the loop carries from one iteration to the next.\<close>

record ('e, 'l, 'k, 'i, 's, 'f) decode_state =
  m_llm :: "('e, 'l, 'k) infer_request"
  sampler :: "('i, 's) sampler_state"
  groups :: "'f group_store"
  active_sequence_groups :: "nat list"
  beam_offets :: "nat \<rightharpoonup> nat"

subsection \<open>Binding the inputs and the prompt step (lines 70 to 100)\<close>

definition bind_prompt_inputs ::
  "('e, 'l, 'k) infer_request \<Rightarrow> 'e model_input \<Rightarrow> int64 tensor \<Rightarrow> int64 tensor option \<Rightarrow> bool \<Rightarrow> nat
     \<Rightarrow> ('e, 'l, 'k) infer_request" where
  "bind_prompt_inputs engine input_ids attention_mask position_ids has_embedding batch_size =
     (let e1 = (if has_embedding then engine\<lparr>t_inputs_embeds := Some input_ids\<rparr>
                else engine\<lparr>t_input_ids := Some input_ids\<rparr>);
          e2 = e1\<lparr>t_attention_mask := attention_mask\<rparr>;
          e3 = (case position_ids of Some p \<Rightarrow> e2\<lparr>t_position_ids := p\<rparr> | None \<Rightarrow> e2)
      in e3\<lparr>t_beam_idx := \<lparr>shape = [batch_size], data = replicate batch_size 0\<rparr>\<rparr>)"

text \<open>Lines 90 to 94. \<^verbatim>\<open>get_prompt_len() - sequence_len\<close> is computed in \<^verbatim>\<open>size_t\<close>: it wraps
  around when the prompt is shorter than the sequence length of the logits.\<close>

definition schedule_prompt :: "nat \<Rightarrow> nat list \<Rightarrow> 'f group_store \<Rightarrow> 'f group_store" where
  "schedule_prompt sequence_len sequence_groups store_of =
     fold (\<lambda>p h. h(p := schedule_tokens sequence_len
                          (update_processed_tokens_num (size_t_sub (get_prompt_len (h p)) sequence_len) (h p))))
       sequence_groups store_of"

text \<open>Lines 96 to 98: group \<open>i\<close> of the input starts at row \<open>i\<close>.\<close>

definition initial_beam_offets :: "'f group_store \<Rightarrow> nat list \<Rightarrow> (nat \<rightharpoonup> nat)" where
  "initial_beam_offets store_of sequence_groups =
     fold (\<lambda>i m. map_insert m (request_id (store_of (sequence_groups ! i))) i)
       [0..<length sequence_groups] Map.empty"

definition prompt_phase ::
  "('e, 'l, 'k, 'i, 's, 'f) collaborators \<Rightarrow> ('e, 'l, 'k) infer_request \<Rightarrow> 'e model_input
     \<Rightarrow> int64 tensor \<Rightarrow> ('i, 's) sampler_state \<Rightarrow> 'f group_store \<Rightarrow> nat list \<Rightarrow> int64 tensor option
     \<Rightarrow> (int64 tensor \<Rightarrow> 'e tensor) option
     \<Rightarrow> failure + ('e, 'l, 'k, 'i, 's, 'f) decode_state" where
  "prompt_phase env engine input_ids attention_mask sampler0 store_of sequence_groups position_ids m_embedding =
     and_then (subscript (input_shape input_ids) 0) (\<lambda>batch_size.
       let bound = bind_prompt_inputs engine input_ids attention_mask position_ids
                     (m_embedding \<noteq> None) batch_size;
           engine1 = infer env bound
       in and_then (at (shape (t_logits engine1)) 1) (\<lambda>sequence_len.
            let scheduled = schedule_prompt sequence_len sequence_groups store_of;
                offsets = initial_beam_offets scheduled sequence_groups;
                (sampler1, sampled) = sample env sampler0 scheduled sequence_groups (t_logits engine1)
            in Inr \<lparr>m_llm = engine1, sampler = sampler1, groups = sampled,
                    active_sequence_groups = sequence_groups, beam_offets = offsets\<rparr>))"

subsection \<open>One iteration of the generation loop (lines 103 to 165)\<close>

text \<open>Lines 103 to 109: one token is scheduled for every active group and the rows of the
  step are counted.\<close>

definition schedule_step :: "'f group_store \<Rightarrow> nat list \<Rightarrow> 'f group_store \<times> nat" where
  "schedule_step store_of active =
     fold (\<lambda>p (h, total_num_tokens).
             let h' = h(p := schedule_tokens 1 (h p));
                 num_sequences = num_running_seqs (h' p)
             in (h', total_num_tokens + num_scheduled_tokens (h' p) * num_sequences))
       active (store_of, 0)"

text \<open>Lines 127 to 129: the token at an absolute position of a hypothesis. Both reads are
  unchecked \<^verbatim>\<open>operator[]\<close>.\<close>

definition token_at :: "'f sequence_group \<Rightarrow> 'f sequence \<Rightarrow> nat \<Rightarrow> failure + int64" where
  "token_at g sequence position_id =
     (if position_id < get_prompt_len g then subscript (prompt_ids g) position_id
      else subscript (generated_ids sequence) (position_id - get_prompt_len g))"

text \<open>Lines 125 to 130: the scheduled tokens of one hypothesis are written at
  \<^verbatim>\<open>input_ids_data[token_id]\<close>; \<open>input_ids_data\<close> is the offset of that pointer in the buffer
  of \<^verbatim>\<open>new_input_ids\<close>.\<close>

definition write_tokens ::
  "'f sequence_group \<Rightarrow> 'f sequence \<Rightarrow> nat \<Rightarrow> nat \<Rightarrow> nat \<Rightarrow> int64 list \<Rightarrow> failure + int64 list" where
  "write_tokens g sequence num_scheduled group_position_id input_ids_data buffer =
     fold (\<lambda>token_id acc. and_then acc (\<lambda>buf.
             and_then (token_at g sequence (group_position_id + token_id))
               (\<lambda>v. store buf (input_ids_data + token_id) v)))
       [0..<num_scheduled] (Inr buffer)"

text \<open>The value pushed on \<^verbatim>\<open>next_beams\<close>: an \<^verbatim>\<open>int32_t\<close> plus a \<^verbatim>\<open>size_t\<close>, narrowed to
  \<^verbatim>\<open>int32_t\<close>.\<close>

definition beam_index :: "int32 \<Rightarrow> nat \<Rightarrow> int32" where
  "beam_index beam offset = word_of_nat (size_t (size_t_of_int32 beam + offset))"

text \<open>Lines 123 to 134, for one running sequence. The state is the buffer of
  \<^verbatim>\<open>new_input_ids\<close>, the offset \<open>input_ids_data\<close> and the beam mapping built so far.\<close>

definition fill_sequence ::
  "(nat \<rightharpoonup> int32) \<Rightarrow> (nat \<rightharpoonup> nat) \<Rightarrow> 'f sequence_group \<Rightarrow> nat \<Rightarrow> int64 list \<times> nat \<times> int32 list
     \<Rightarrow> failure + int64 list \<times> nat \<times> int32 list" where
  "fill_sequence beam_idxs offsets g seq_id st =
     (case st of (buffer, input_ids_data, beams) \<Rightarrow>
        and_then (subscript (running_sequences g) seq_id) (\<lambda>sequence.
        and_then (write_tokens g sequence (num_scheduled_tokens g) (num_processed_tokens g)
                    input_ids_data buffer) (\<lambda>buffer'.
        and_then (map_at offsets (request_id g)) (\<lambda>offset.
          Inr (buffer', input_ids_data + num_scheduled_tokens g,
               beams @ [beam_index (fst (map_subscript beam_idxs (sequence_id sequence))) offset])))))"

definition fill_group ::
  "('e, 'l, 'k, 'i, 's, 'f) collaborators \<Rightarrow> ('i, 's) sampler_state \<Rightarrow> (nat \<rightharpoonup> nat)
     \<Rightarrow> 'f sequence_group \<Rightarrow> int64 list \<times> nat \<times> int32 list
     \<Rightarrow> failure + int64 list \<times> nat \<times> int32 list" where
  "fill_group env sampler0 offsets g st =
     (let beam_idxs = get_beam_idxs env sampler0 g
      in fold (\<lambda>seq_id acc. and_then acc (fill_sequence beam_idxs offsets g seq_id))
           [0..<length (running_sequences g)] (Inr st))"

text \<open>Lines 111 to 135: the token-id tensor of the step and its beam mapping.\<close>

definition build_step_inputs ::
  "('e, 'l, 'k, 'i, 's, 'f) collaborators \<Rightarrow> ('i, 's) sampler_state \<Rightarrow> (nat \<rightharpoonup> nat)
     \<Rightarrow> 'f group_store \<Rightarrow> nat list \<Rightarrow> nat \<Rightarrow> failure + int64 tensor \<times> int32 list" where
  "build_step_inputs env sampler0 offsets store_of active total_num_tokens =
     (let new_input_ids = set_shape (uninitialised env) [total_num_tokens, 1]
      in and_then (fold (\<lambda>p acc. and_then acc (fill_group env sampler0 offsets (store_of p)))
                     active (Inr (data new_input_ids, 0, [])))
           (\<lambda>(buffer, input_ids_data, beams). Inr (new_input_ids\<lparr>data := buffer\<rparr>, beams)))"

text \<open>Lines 137 to 140. The right-hand side reads \<^verbatim>\<open>beam_offets[i - 1]\<close>: the map is keyed
  by request id and is subscripted here with the list index \<open>i - 1\<close>.\<close>

definition recompute_beam_offets :: "'f group_store \<Rightarrow> nat list \<Rightarrow> (nat \<rightharpoonup> nat) \<Rightarrow> (nat \<rightharpoonup> nat)" where
  "recompute_beam_offets store_of active offsets =
     fold (\<lambda>i m.
             let (offset, m') =
                   (if i = 0 then (0, m)
                    else (let (previous, m1) = map_subscript m (i - 1)
                          in (num_running_seqs (store_of (active ! (i - 1))) + previous, m1)))
             in m'(request_id (store_of (active ! i)) \<mapsto> offset))
       [0..<length active] offsets"

text \<open>Lines 154 and 155: the beam-index tensor is a view of \<^verbatim>\<open>total_num_tokens\<close> elements on
  the storage of \<^verbatim>\<open>next_beams\<close>.\<close>

definition beam_idx_view :: "nat \<Rightarrow> int32 list \<Rightarrow> failure + int32 tensor" where
  "beam_idx_view total_num_tokens beams =
     (if total_num_tokens \<le> length beams
      then Inr \<lparr>shape = [total_num_tokens], data = take total_num_tokens beams\<rparr>
      else Inl Out_of_bounds_access)"

text \<open>Lines 160 to 165.\<close>

definition retire_finished :: "'f group_store \<Rightarrow> nat list \<Rightarrow> nat list" where
  "retire_finished store_of active =
     filter (\<lambda>p. \<not> (has_finished (store_of p) \<or> out_of_memory (store_of p) \<or> handle_dropped (store_of p)))
       active"

definition generation_step ::
  "('e, 'l, 'k, 'i, 's, 'f) collaborators \<Rightarrow> (int64 tensor \<Rightarrow> 'e tensor) option \<Rightarrow> bool
     \<Rightarrow> ('e, 'l, 'k, 'i, 's, 'f) decode_state \<Rightarrow> failure + ('e, 'l, 'k, 'i, 's, 'f) decode_state" where
  "generation_step env m_embedding has_position_ids st =
     (let active = active_sequence_groups st;
          (scheduled, total_num_tokens) = schedule_step (groups st) active
      in and_then (build_step_inputs env (sampler st) (beam_offets st) scheduled active total_num_tokens)
           (\<lambda>(new_input_ids, beams).
              let offsets = recompute_beam_offets scheduled active (beam_offets st);
                  engine1 = (case m_embedding of
                               Some embedding \<Rightarrow> (m_llm st)\<lparr>t_inputs_embeds := Some (Embeddings (embedding new_input_ids))\<rparr>
                             | None \<Rightarrow> (m_llm st)\<lparr>t_input_ids := Some (Token_ids new_input_ids)\<rparr>)
              in and_then (update_attention_mask_with_beams (uninitialised env) (t_attention_mask engine1) beams)
                   (\<lambda>mask.
                      let engine2 = engine1\<lparr>t_attention_mask := mask\<rparr>
                      in and_then (if has_position_ids
                                   then and_then (update_position_ids (uninitialised env)
                                                    (t_position_ids engine2) (t_attention_mask engine2))
                                          (\<lambda>ids. Inr (engine2\<lparr>t_position_ids := ids\<rparr>))
                                   else Inr engine2)
                           (\<lambda>engine3.
                              and_then (beam_idx_view total_num_tokens beams) (\<lambda>view.
                                let engine4 = infer env (engine3\<lparr>t_beam_idx := view\<rparr>);
                                    (sampler1, sampled) = sample env (sampler st) scheduled active (t_logits engine4)
                                in Inr \<lparr>m_llm = engine4, sampler = sampler1, groups = sampled,
                                        active_sequence_groups = retire_finished sampled active,
                                        beam_offets = offsets\<rparr>)))))"

text \<open>The \<^verbatim>\<open>while\<close> loop of line 102. Whether it ends depends on the sampling policy, so the
  model counts iterations: \<open>None\<close> means that the fuel did not suffice.\<close>

fun generation_loop ::
  "nat \<Rightarrow> ('e, 'l, 'k, 'i, 's, 'f) collaborators \<Rightarrow> (int64 tensor \<Rightarrow> 'e tensor) option \<Rightarrow> bool
     \<Rightarrow> ('e, 'l, 'k, 'i, 's, 'f) decode_state
     \<Rightarrow> (failure + ('e, 'l, 'k, 'i, 's, 'f) decode_state) option" where
  "generation_loop 0 env m_embedding has_position_ids st =
     (if active_sequence_groups st = [] then Some (Inr st) else None)"
| "generation_loop (Suc fuel) env m_embedding has_position_ids st =
     (if active_sequence_groups st = [] then Some (Inr st)
      else (case generation_step env m_embedding has_position_ids st of
              Inl e \<Rightarrow> Some (Inl e)
            | Inr st' \<Rightarrow> generation_loop fuel env m_embedding has_position_ids st'))"

subsection \<open>Result assembly and the disappeared token (lines 168 to 193)\<close>

definition assemble_group :: "'f sequence_group \<Rightarrow> 'f encoded_results \<Rightarrow> 'f encoded_results" where
  "assemble_group g results =
     (let sampling_params = sampling_parameters g;
          sequences = finished_sequences g;
          num_outputs = min (num_return_sequences sampling_params) (length sequences)
      in fold (\<lambda>seq_id r.
                 let sequence = sequences ! seq_id;
                     score = (if is_beam_search sampling_params then beam_search_score sequence
                              else cumulative_log_probs sequence)
                 in r\<lparr>tokens := tokens r @ [generated_ids sequence], scores := scores r @ [score]\<rparr>)
           [0..<num_outputs] results)"

definition assemble_results :: "'f group_store \<Rightarrow> nat list \<Rightarrow> 'f encoded_results" where
  "assemble_results store_of sequence_groups =
     fold (\<lambda>p r. assemble_group (store_of p) r) sequence_groups \<lparr>tokens = [], scores = []\<rparr>"

definition release_requests ::
  "'f group_store \<Rightarrow> nat list \<Rightarrow> ('i, 's) sampler_state \<Rightarrow> ('i, 's) sampler_state" where
  "release_requests store_of sequence_groups sampler0 =
     fold (\<lambda>p s. clear_request_info s (request_id (store_of p))) sequence_groups sampler0"

text \<open>Lines 188 to 191: \<^verbatim>\<open>sequence_groups[0]\<close>, \<^verbatim>\<open>get_finished_sequences()[0]\<close> and
  \<^verbatim>\<open>results.tokens[0]\<close> are unchecked, and \<^verbatim>\<open>back()\<close> needs a non-empty vector.\<close>

definition last_token_of_best_sequence ::
  "'f group_store \<Rightarrow> nat list \<Rightarrow> 'f encoded_results \<Rightarrow> failure + int64 option" where
  "last_token_of_best_sequence store_of sequence_groups results =
     and_then (subscript sequence_groups 0) (\<lambda>p.
     and_then (subscript (finished_sequences (store_of p)) 0) (\<lambda>best.
       if finish_reason best = Reason_LENGTH \<or> handle_dropped (store_of p)
       then and_then (subscript (tokens results) 0)
              (\<lambda>t. if t = [] then Inl Out_of_bounds_access else Inr (Some (last t)))
       else Inr None))"

definition finish_phase ::
  "('e, 'l, 'k, 'i, 's, 'f) decode_state \<Rightarrow> nat list
     \<Rightarrow> failure + ('f encoded_results \<times> int64 option) \<times> ('e, 'l, 'k, 'i, 's, 'f) decode_state" where
  "finish_phase st sequence_groups =
     (let results = assemble_results (groups st) sequence_groups;
          st' = st\<lparr>sampler := release_requests (groups st) sequence_groups (sampler st)\<rparr>
      in and_then (last_token_of_best_sequence (groups st) sequence_groups results)
           (\<lambda>hint. Inr ((results, hint), st')))"

subsection \<open>The whole call\<close>

text \<open>
  The result is the pair the C++ returns together with the final state of the objects it
  was given by reference (engine, sampler, groups). The vector \<^verbatim>\<open>generations\<close> of lines 63
  to 68 is filled and never read; the \<^verbatim>\<open>streamer_ptr\<close> argument is not used.
\<close>

definition get_lm_encoded_results ::
  "nat \<Rightarrow> ('e, 'l, 'k, 'i, 's, 'f) collaborators \<Rightarrow> ('e, 'l, 'k) infer_request \<Rightarrow> 'e model_input
     \<Rightarrow> int64 tensor \<Rightarrow> ('i, 's) sampler_state \<Rightarrow> 'f group_store \<Rightarrow> nat list \<Rightarrow> int64 tensor option
     \<Rightarrow> (int64 tensor \<Rightarrow> 'e tensor) option
     \<Rightarrow> (failure + ('f encoded_results \<times> int64 option) \<times> ('e, 'l, 'k, 'i, 's, 'f) decode_state) option" where
  "get_lm_encoded_results fuel env engine input_ids attention_mask sampler0 store_of sequence_groups
       position_ids m_embedding =
     (case prompt_phase env engine input_ids attention_mask sampler0 store_of sequence_groups
             position_ids m_embedding of
        Inl e \<Rightarrow> Some (Inl e)
      | Inr st \<Rightarrow>
          (case generation_loop fuel env m_embedding (position_ids \<noteq> None) st of
             None \<Rightarrow> None
           | Some (Inl e) \<Rightarrow> Some (Inl e)
           | Some (Inr st') \<Rightarrow> Some (finish_phase st' sequence_groups)))"

section \<open>Pipeline Facade: \<^verbatim>\<open>VLMPipelineImpl\<close>\<close>

text \<open>
  The members of \<^verbatim>\<open>VLMPipelineImpl\<close> that \<^verbatim>\<open>generate\<close> changes: the language model request,
  the sampler and the inputs embedder (opaque). The embedder, the tokenizer, the
  construction of a \<^verbatim>\<open>SequenceGroup\<close> and the engine's cache operations are declared
  outside \<^verbatim>\<open>pipeline.cpp\<close> and are parameters of the model.
\<close>

record ('e, 'l, 'k, 'i, 's, 'm) pipeline =
  m_language :: "('e, 'l, 'k) infer_request"
  m_sampler :: "('i, 's) sampler_state"
  m_inputs_embedder :: 'm

record ('e, 'k, 'm, 'p, 'f) facade_collaborators =
  get_inputs_embeds :: "'m \<Rightarrow> 'p \<Rightarrow> 'm \<times> 'e tensor"
  get_num_tokens_to_remove_from_hist :: "'m \<Rightarrow> nat"
  get_tokenized_history :: "'m \<Rightarrow> int64 list"
  update_tokenized_history :: "'m \<Rightarrow> int64 list \<Rightarrow> int64 option \<Rightarrow> bool \<Rightarrow> nat \<Rightarrow> 'm"
  trim_kv :: "'k \<Rightarrow> nat \<Rightarrow> 'k"
  empty_kv :: 'k
  new_sequence_group :: "nat \<Rightarrow> int64 list \<Rightarrow> generation_config \<Rightarrow> 'f sequence_group"
  decode :: "int64 list \<Rightarrow> string"
  pad_token_id :: int64
  embedding_model :: "int64 tensor \<Rightarrow> 'e tensor"

text \<open>Modelled from the spec: \<^verbatim>\<open>trim_kv_cache\<close> (declared in \<^verbatim>\<open>utils.hpp\<close>) evicts that many
  trailing positions from the engine's internal cache and leaves everything unchanged when
  the count is zero; \<^verbatim>\<open>reset_state\<close> (of \<^verbatim>\<open>ov::InferRequest\<close>) clears the internal cache.
  Neither touches a bound tensor.\<close>

definition trim_kv_cache ::
  "('e, 'k, 'm, 'p, 'f) facade_collaborators \<Rightarrow> ('e, 'l, 'k) infer_request \<Rightarrow> nat
     \<Rightarrow> ('e, 'l, 'k) infer_request" where
  "trim_kv_cache fenv request remove_from_end =
     (if remove_from_end = 0 then request
      else request\<lparr>kv_state := trim_kv fenv (kv_state request) remove_from_end\<rparr>)"

definition reset_state ::
  "('e, 'k, 'm, 'p, 'f) facade_collaborators \<Rightarrow> ('e, 'l, 'k) infer_request
     \<Rightarrow> ('e, 'l, 'k) infer_request" where
  "reset_state fenv request = request\<lparr>kv_state := empty_kv fenv\<rparr>"

text \<open>The end of both constructors (lines 98 to 107 and 132 to 145): the attention mask
  of the fresh request gets the shape \<open>(1, 0)\<close>.\<close>

definition construct_pipeline ::
  "(nat \<Rightarrow> int64) \<Rightarrow> ('e, 'l, 'k) infer_request \<Rightarrow> ('i, 's) sampler_state \<Rightarrow> 'm
     \<Rightarrow> ('e, 'l, 'k, 'i, 's, 'm) pipeline" where
  "construct_pipeline mem request sampler_new embedder =
     \<lparr>m_language = request\<lparr>t_attention_mask := set_shape mem [1, 0]\<rparr>,
      m_sampler = sampler_new, m_inputs_embedder = embedder\<rparr>"

text \<open>What lines 159 to 194 of \<^verbatim>\<open>generate\<close> prepare for the decode loop.\<close>

record ('e, 'l, 'k, 'm, 'f) turn =
  turn_embedder :: 'm
  turn_language :: "('e, 'l, 'k) infer_request"
  to_remove_from_hist :: nat
  history_size :: nat
  inputs_embeds_size :: nat
  inputs_embeds :: "'e tensor"
  sequence_group :: "'f sequence_group"
  new_atten_mask :: "int64 tensor"
  turn_position_ids :: "int64 tensor"

text \<open>Lines 179 to 181: \<^verbatim>\<open>std::fill_n\<close> with the pad token, then \<^verbatim>\<open>std::copy\<close> of the whole
  tokenized history to the start of the buffer, whatever the size of the buffer.\<close>

definition fill_prompt_ids :: "nat \<Rightarrow> int64 \<Rightarrow> int64 list \<Rightarrow> failure + int64 list" where
  "fill_prompt_ids n pad tokenized_history =
     (if length tokenized_history \<le> n
      then Inr (tokenized_history @ replicate (n - length tokenized_history) pad)
      else Inl Out_of_bounds_access)"

definition prepare_turn ::
  "('e, 'k, 'm, 'p, 'f) facade_collaborators \<Rightarrow> ('e, 'l, 'k, 'i, 's, 'm) pipeline \<Rightarrow> 'p
     \<Rightarrow> generation_config \<Rightarrow> failure + ('e, 'l, 'k, 'm, 'f) turn" where
  "prepare_turn fenv pl prompt config =
     (let (embedder, embeds) = get_inputs_embeds fenv (m_inputs_embedder pl) prompt;
          to_remove = get_num_tokens_to_remove_from_hist fenv embedder;
          language = trim_kv_cache fenv (m_language pl) to_remove
      in and_then (at (shape (t_attention_mask language)) 1) (\<lambda>mask_length.
         and_then (at (shape embeds) 1) (\<lambda>embeds_size.
           let history = size_t_sub mask_length to_remove;
               tokenized_history = get_tokenized_history fenv embedder;
               total = size_t (history + embeds_size)
           in and_then (fill_prompt_ids total (pad_token_id fenv) tokenized_history) (\<lambda>prompt_ids.
                Inr \<lparr>turn_embedder = embedder, turn_language = language,
                     to_remove_from_hist = to_remove, history_size = history,
                     inputs_embeds_size = embeds_size, inputs_embeds = embeds,
                     sequence_group = new_sequence_group fenv 0 prompt_ids config,
                     new_atten_mask = \<lparr>shape = [1, total], data = replicate total 1\<rparr>,
                     turn_position_ids =
                       \<lparr>shape = [1, embeds_size],
                        data = map (\<lambda>i. word_of_nat history + word_of_nat i) [0..<embeds_size]\<rparr>\<rparr>))))"

text \<open>
  \<^verbatim>\<open>generate\<close> (lines 148 to 227). The configuration checks of lines 155 to 157 and the
  seeding of the sampler in lines 197 to 199 do not touch the engine and are left out. The
  result is the decoded texts with their scores and the pipeline after the call.
\<close>

definition generate ::
  "nat \<Rightarrow> ('e, 'l, 'k, 'i, 's, 'f) collaborators \<Rightarrow> ('e, 'k, 'm, 'p, 'f) facade_collaborators
     \<Rightarrow> ('e, 'l, 'k, 'i, 's, 'm) pipeline \<Rightarrow> 'p \<Rightarrow> generation_config
     \<Rightarrow> (failure + (string list \<times> 'f list) \<times> ('e, 'l, 'k, 'i, 's, 'm) pipeline) option" where
  "generate fuel env fenv pl prompt config =
     (case prepare_turn fenv pl prompt config of
        Inl e \<Rightarrow> Some (Inl e)
      | Inr t \<Rightarrow>
          (case get_lm_encoded_results fuel env (turn_language t) (Embeddings (inputs_embeds t))
                  (new_atten_mask t) (m_sampler pl) (\<lambda>_. sequence_group t) [0]
                  (Some (turn_position_ids t)) (Some (embedding_model fenv)) of
             None \<Rightarrow> None
           | Some (Inl e) \<Rightarrow> Some (Inl e)
           | Some (Inr ((encoded_result, last_disappeared_token), st)) \<Rightarrow>
               Some (and_then (subscript (tokens encoded_result) 0) (\<lambda>best.
                     and_then (subscript (shape (t_attention_mask (m_llm st))) 1) (\<lambda>mask_length.
                       let embedder = update_tokenized_history fenv (turn_embedder t) best
                                        last_disappeared_token (is_beam_search config)
                                        (size_t_sub mask_length
                                           (size_t (history_size t + inputs_embeds_size t)));
                           language = (reset_state fenv (m_llm st))
                                        \<lparr>t_attention_mask := set_shape (uninitialised env) [1, 0]\<rparr>
                       in Inr ((map (decode fenv) (tokens encoded_result), scores encoded_result),
                               \<lparr>m_language = language, m_sampler = sampler st,
                                m_inputs_embedder = embedder\<rparr>))))))"

section \<open>The result assembly as the specification words it\<close>

text \<open>
  For every original group, the returned hypotheses are the first
  \<open>min(num_return_sequences, number of finished hypotheses)\<close> finished hypotheses, and the
  score of a returned hypothesis is the beam-search score when the parameters specify beam
  search, the cumulative log-probability otherwise. These two definitions follow the
  specification; the theorems compare them with \<open>assemble_results\<close>, which follows the code.
\<close>

definition spec_returned_sequences :: "'f sequence_group \<Rightarrow> 'f sequence list" where
  "spec_returned_sequences g =
     take (min (num_return_sequences (sampling_parameters g)) (length (finished_sequences g)))
       (finished_sequences g)"

definition spec_score :: "'f sequence_group \<Rightarrow> 'f sequence \<Rightarrow> 'f" where
  "spec_score g sequence =
     (if is_beam_search (sampling_parameters g) then beam_search_score sequence
      else cumulative_log_probs sequence)"

text \<open>
  The token-id tensor of a step as the specification words it: for each running hypothesis
  of a group and each scheduled token, the prompt token at the absolute position while the
  position is within the prompt, the generated token at the offset past the prompt
  otherwise.
\<close>

definition spec_token :: "'f sequence_group \<Rightarrow> 'f sequence \<Rightarrow> nat \<Rightarrow> int64" where
  "spec_token g sequence position =
     (if position < length (prompt_ids g) then prompt_ids g ! position
      else generated_ids sequence ! (position - length (prompt_ids g)))"

definition spec_sequence_rows :: "'f sequence_group \<Rightarrow> 'f sequence \<Rightarrow> int64 list" where
  "spec_sequence_rows g sequence =
     map (\<lambda>token_id. spec_token g sequence (num_processed_tokens g + token_id))
       [0..<num_scheduled_tokens g]"

definition spec_group_rows :: "'f sequence_group \<Rightarrow> int64 list" where
  "spec_group_rows g = concat (map (spec_sequence_rows g) (running_sequences g))"

text \<open>Modelled from the spec: the sampling policy ends the iteration of every group it is
  given (\<^verbatim>\<open>Sampler::sample\<close> is declared outside the source files): the processed-token
  counter advances by the scheduled tokens and the prompt is left alone. This is a hypothesis
  on the collaborator \<open>sample\<close>, not a property of the orchestrator.\<close>

definition finishes_iteration :: "('e, 'l, 'k, 'i, 's, 'f) collaborators \<Rightarrow> bool" where
  "finishes_iteration env \<longleftrightarrow>
     (\<forall>s h ps lg p. p \<in> set ps \<longrightarrow>
        num_processed_tokens (snd (sample env s h ps lg) p)
          = num_processed_tokens (h p) + num_scheduled_tokens (h p) \<and>
        prompt_ids (snd (sample env s h ps lg) p) = prompt_ids (h p))"

section \<open>Example collaborators and requests\<close>

text \<open>
  Concrete collaborators at which the model is evaluated: an engine whose logits have one
  row per beam index and the sequence length of the bound input, and a greedy sampling
  policy that appends a token to every running hypothesis, adds the scheduled tokens to
  the processed ones, and finishes a group by length once a hypothesis has \<open>limit\<close> tokens.
\<close>

definition example_infer :: "(unit, unit, nat) infer_request \<Rightarrow> (unit, unit, nat) infer_request" where
  "example_infer e =
     e\<lparr>t_logits := \<lparr>shape = [length (data (t_beam_idx e)),
                               (case t_inputs_embeds e of
                                  Some (Embeddings t) \<Rightarrow> shape t ! 1
                                | _ \<Rightarrow> (case t_input_ids e of Some (Token_ids t) \<Rightarrow> shape t ! 1 | _ \<Rightarrow> 1)),
                               1],
                      data = []\<rparr>,
       kv_state := kv_state e + 1\<rparr>"

definition example_sample_group :: "nat \<Rightarrow> int sequence_group \<Rightarrow> int sequence_group" where
  "example_sample_group limit g =
     (let grown = map (\<lambda>q. q\<lparr>generated_ids := generated_ids q @ [word_of_nat (40 + length (generated_ids q))]\<rparr>)
                    (running_sequences g);
          g1 = g\<lparr>num_processed_tokens := num_processed_tokens g + num_scheduled_tokens g,
                 num_scheduled_tokens := 0\<rparr>
      in if list_ex (\<lambda>q. limit \<le> length (generated_ids q)) grown
         then g1\<lparr>running_sequences := [],
                 finished_sequences := map (\<lambda>q. q\<lparr>finish_reason := Reason_LENGTH\<rparr>) grown,
                 has_finished := True\<rparr>
         else g1\<lparr>running_sequences := grown\<rparr>)"

definition example_sample ::
  "nat \<Rightarrow> (unit, unit) sampler_state \<Rightarrow> int group_store \<Rightarrow> nat list \<Rightarrow> unit tensor
     \<Rightarrow> (unit, unit) sampler_state \<times> int group_store" where
  "example_sample limit s h ps lg =
     (fold (\<lambda>p s. s\<lparr>request_info := (request_info s)(request_id (h p) \<mapsto> ())\<rparr>) ps s,
      fold (\<lambda>p h. h(p := example_sample_group limit (h p))) ps h)"

definition example_beam_idxs :: "(unit, unit) sampler_state \<Rightarrow> int sequence_group \<Rightarrow> (nat \<rightharpoonup> int32)" where
  "example_beam_idxs s g =
     map_of (zip (map sequence_id (running_sequences g))
                 (map word_of_nat [0..<length (running_sequences g)]))"

definition example_env :: "nat \<Rightarrow> (unit, unit, nat, unit, unit, int) collaborators" where
  "example_env limit =
     \<lparr>infer = example_infer, sample = example_sample limit, get_beam_idxs = example_beam_idxs,
      uninitialised = (\<lambda>_. 99)\<rparr>"

definition example_engine :: "(unit, unit, nat) infer_request" where
  "example_engine =
     \<lparr>t_input_ids = None, t_inputs_embeds = None,
      t_attention_mask = \<lparr>shape = [1, 0], data = []\<rparr>,
      t_position_ids = \<lparr>shape = [1, 0], data = []\<rparr>,
      t_beam_idx = \<lparr>shape = [0], data = []\<rparr>,
      t_logits = \<lparr>shape = [], data = []\<rparr>, kv_state = 0\<rparr>"

definition example_sequence :: "nat \<Rightarrow> int64 list \<Rightarrow> generation_finish_reason \<Rightarrow> int sequence" where
  "example_sequence i ids reason =
     \<lparr>sequence_id = i, generated_ids = ids, cumulative_log_probs = - 1, beam_search_score = - 2,
      finish_reason = reason\<rparr>"

text \<open>A fresh request with \<open>n\<close> running hypotheses and nothing generated.\<close>

definition example_group :: "nat \<Rightarrow> int64 list \<Rightarrow> nat \<Rightarrow> int sequence_group" where
  "example_group request prompt n =
     \<lparr>request_id = request, prompt_ids = prompt,
      sampling_parameters = \<lparr>num_return_sequences = 1, is_beam_search = False\<rparr>,
      num_processed_tokens = 0, num_scheduled_tokens = 0,
      running_sequences = map (\<lambda>i. example_sequence i [] Reason_NONE) [0..<n],
      finished_sequences = [], has_finished = False, out_of_memory = False, handle_dropped = False\<rparr>"

definition example_sampler :: "(unit, unit) sampler_state" where
  "example_sampler = \<lparr>request_info = Map.empty, sampler_internal = ()\<rparr>"

text \<open>An embedder that returns three embedding vectors for every prompt and asks for no
  history to be removed; the embedding model maps each token id to one vector.\<close>

definition example_facade :: "(unit, nat, int64 list, unit, int) facade_collaborators" where
  "example_facade =
     \<lparr>get_inputs_embeds = (\<lambda>m prompt. (m, \<lparr>shape = [1, 3, 1], data = [(), (), ()]\<rparr>)),
      get_num_tokens_to_remove_from_hist = (\<lambda>m. 0),
      get_tokenized_history = (\<lambda>m. m),
      update_tokenized_history = (\<lambda>m best hint beam delta. m @ best),
      trim_kv = (\<lambda>k n. k - n),
      empty_kv = 0,
      new_sequence_group = (\<lambda>request prompt config. (example_group request prompt 1)\<lparr>sampling_parameters := config\<rparr>),
      decode = (\<lambda>ids. map (\<lambda>_. CHR ''t'') ids),
      pad_token_id = 0,
      embedding_model = (\<lambda>t. \<lparr>shape = shape t @ [1], data = map (\<lambda>_. ()) (data t)\<rparr>)\<rparr>"

section \<open>Properties of the Beam State Updater\<close>

subsection \<open>Arithmetic and buffer lemmas\<close>

lemma and_then_Inr: "and_then (Inr x) f = f x"
  by (simp add: and_then_def)

lemma and_then_Inl: "and_then (Inl e) f = Inl e"
  by (simp add: and_then_def)

lemma size_t_id: "n < 2 ^ 64 \<Longrightarrow> size_t n = n"
  by (simp add: size_t_def)

lemma size_t_sub_Suc: "Suc m < 2 ^ 64 \<Longrightarrow> size_t_sub (Suc m) (Suc 0) = m"
proof -
  assume a: "Suc m < 2 ^ 64"
  have "size_t (Suc m) + 2 ^ 64 - size_t (Suc 0) = 2 ^ 64 + m"
    using a by (simp add: size_t_def)
  then show ?thesis using a by (simp add: size_t_sub_def)
qed

lemma size_t_sub_one: "0 < n \<Longrightarrow> n < 2 ^ 64 \<Longrightarrow> size_t_sub n 1 = n - 1"
  using size_t_sub_Suc [of "n - 1"] by simp

lemma size_t_of_int32_nonneg:
  assumes "0 \<le> sint b"
  shows "size_t_of_int32 b = nat (sint b)"
proof -
  have lt: "sint b < 2 ^ 31" using sint_lt [of b] by simp
  have "uint (scast b :: 64 word) = sint b mod 2 ^ LENGTH(64)"
    by (simp only: scast_eq uint_word_of_int)
  also have "\<dots> = sint b" using assms lt by simp
  finally have "uint (scast b :: 64 word) = sint b" .
  then show ?thesis
    by (simp only: size_t_of_int32_def unat_eq_nat_uint)
qed

lemma store_after_copy:
  assumes "off + n < length buffer" "length row = n"
  shows "(take off buffer @ row @ drop (off + n) buffer)[off + n := v]
         = take off buffer @ (row @ [v]) @ drop (off + n + 1) buffer"
proof -
  have d: "drop (off + n) buffer = buffer ! (off + n) # drop (Suc (off + n)) buffer"
    using assms(1) by (simp add: Cons_nth_drop_Suc)
  have l: "length (take off buffer @ row) = off + n" using assms by simp
  have "(take off buffer @ row @ drop (off + n) buffer)[off + n := v]
        = ((take off buffer @ row) @ drop (off + n) buffer)[length (take off buffer @ row) + 0 := v]"
    using l by simp
  also have "\<dots> = (take off buffer @ row) @ (drop (off + n) buffer)[0 := v]"
    by (simp only: list_update_append) simp
  also have "\<dots> = take off buffer @ (row @ [v]) @ drop (off + n + 1) buffer"
    by (subst d) simp
  finally show ?thesis .
qed

lemma copy_beam_row_ok:
  assumes len: "length (data original_mask) = P * C" and fitP: "P * C < 2 ^ 64"
    and K: "K = C + 1"
    and id: "beam_id < length next_beams"
    and lo: "0 \<le> sint (next_beams ! beam_id)" and hi: "sint (next_beams ! beam_id) < int P"
    and buf: "length buffer = length next_beams * K"
    and fitN: "length next_beams * K < 2 ^ 64"
  shows "copy_beam_row original_mask [P, C] [length next_beams, K] next_beams beam_id buffer
         = Inr (take (beam_id * K) buffer
                @ (take C (drop (nat (sint (next_beams ! beam_id)) * C) (data original_mask)) @ [1])
                @ drop (beam_id * K + K) buffer)"
proof -
  define b where "b = nat (sint (next_beams ! beam_id))"
  define roff where "roff = beam_id * K"
  define row where "row = take C (drop (b * C) (data original_mask))"
  have bP: "Suc b \<le> P" using lo hi by (simp add: b_def)
  have src: "b * C + C \<le> P * C"
    using mult_le_mono1 [OF bP, of C] by simp
  have "Suc beam_id * K \<le> length next_beams * K"
    using id by (intro mult_le_mono1) simp
  then have dst: "roff + K \<le> length next_beams * K" by (simp add: roff_def)
  have roff: "size_t (beam_id * K) = roff"
    using dst fitN by (simp add: size_t_id roff_def)
  have soff: "size_t (size_t_of_int32 (next_beams ! beam_id) * C) = b * C"
    using src fitP lo by (simp add: size_t_of_int32_nonneg b_def size_t_id)
  have "roff + K < 2 ^ 64" "roff + K = Suc (roff + C)" using dst fitN K by simp_all
  then have last: "size_t_sub (size_t (roff + K)) (Suc 0) = roff + C"
    by (simp add: size_t_id size_t_sub_Suc)
  have inb: "roff + C < length buffer" using dst buf K by simp
  have cp: "memcpy buffer roff (data original_mask) (b * C) C
            = Inr (take roff buffer @ row @ drop (roff + C) buffer)"
    using src len inb by (simp add: memcpy_def row_def)
  have rowlen: "length row = C"
    using src len by (simp add: row_def)
  have st: "store (take roff buffer @ row @ drop (roff + C) buffer) (roff + C) 1
            = Inr (take roff buffer @ (row @ [1]) @ drop (roff + K) buffer)"
    using inb rowlen store_after_copy [OF inb rowlen, of 1] K by (simp add: store_def)
  have "copy_beam_row original_mask [P, C] [length next_beams, K] next_beams beam_id buffer
        = and_then (memcpy buffer roff (data original_mask) (b * C) C)
            (\<lambda>buffer'. store buffer' (roff + C) 1)"
    unfolding copy_beam_row_def using id
    by (simp add: at_def and_then_Inr roff soff last Let_def b_def [symmetric])
  also have "\<dots> = Inr (take roff buffer @ (row @ [1]) @ drop (roff + K) buffer)"
    by (simp only: cp and_then_Inr st)
  finally show ?thesis by (simp only: roff_def row_def b_def)
qed

lemma copy_beam_rows_prefix:
  assumes len: "length (data original_mask) = P * C" and fitP: "P * C < 2 ^ 64"
    and K: "K = C + 1"
    and valid: "\<forall>b \<in> set next_beams. 0 \<le> sint b \<and> sint b < int P"
    and buf: "length buffer = length next_beams * K"
    and fitN: "length next_beams * K < 2 ^ 64"
    and k: "k \<le> length next_beams"
  shows "copy_beam_rows original_mask [P, C] [length next_beams, K] next_beams [0..<k] buffer
         = Inr (concat (map (\<lambda>b. take C (drop (nat (sint b) * C) (data original_mask)) @ [1])
                          (take k next_beams))
                @ drop (k * K) buffer)"
  using k
proof (induction k)
  case 0
  show ?case by (simp add: copy_beam_rows_def)
next
  case (Suc k)
  let ?row = "\<lambda>b. take C (drop (nat (sint b) * C) (data original_mask)) @ [1]"
  let ?done = "concat (map ?row (take k next_beams))"
  have kl: "k < length next_beams" using Suc.prems by simp
  have b: "0 \<le> sint (next_beams ! k)" "sint (next_beams ! k) < int P"
    using valid kl by simp_all
  have rows: "\<forall>b \<in> set (take k next_beams). length (?row b) = K"
  proof
    fix b assume "b \<in> set (take k next_beams)"
    then have "b \<in> set next_beams" by (rule in_set_takeD)
    then have "0 \<le> sint b" "sint b < int P" using valid by simp_all
    then have "Suc (nat (sint b)) \<le> P" by simp
    then have "nat (sint b) * C + C \<le> P * C"
      using mult_le_mono1 [of "Suc (nat (sint b))" P C] by simp
    then show "length (?row b) = K" using len K by simp
  qed
  have dl: "length ?done = k * K"
    using rows kl by (simp add: length_concat sum_list_triv comp_def
        cong: map_cong) 
  have "k * K + K \<le> length next_beams * K"
    using mult_le_mono1 [of "Suc k" "length next_beams" K] kl by simp
  then have bl: "length (?done @ drop (k * K) buffer) = length next_beams * K"
    using dl buf by simp
  have step: "copy_beam_row original_mask [P, C] [length next_beams, K] next_beams k
                (?done @ drop (k * K) buffer)
              = Inr (take (k * K) (?done @ drop (k * K) buffer) @ ?row (next_beams ! k)
                     @ drop (k * K + K) (?done @ drop (k * K) buffer))"
    by (rule copy_beam_row_ok [OF len fitP K kl b bl fitN])
  have t: "take (k * K) (?done @ drop (k * K) buffer) = ?done" using dl by simp
  have d: "drop (k * K + K) (?done @ drop (k * K) buffer) = drop (Suc k * K) buffer"
    using dl by (simp add: add.commute)
  have tk: "take (Suc k) next_beams = take k next_beams @ [next_beams ! k]"
    using kl by (simp add: take_Suc_conv_app_nth)
  have "copy_beam_rows original_mask [P, C] [length next_beams, K] next_beams [0..<Suc k] buffer
        = and_then (copy_beam_rows original_mask [P, C] [length next_beams, K] next_beams [0..<k] buffer)
            (copy_beam_row original_mask [P, C] [length next_beams, K] next_beams k)"
    by (simp add: copy_beam_rows_def)
  also have "\<dots> = copy_beam_row original_mask [P, C] [length next_beams, K] next_beams k
                      (?done @ drop (k * K) buffer)"
    using Suc.IH kl by (simp add: and_then_Inr)
  also have "\<dots> = Inr (?done @ ?row (next_beams ! k) @ drop (Suc k * K) buffer)"
    by (simp only: step t d)
  finally show ?case by (simp only: tk map_append concat_append) simp
qed

lemma concat_rows_nth:
  assumes "\<forall>x \<in> set xs. length (f x) = K" "r < length xs"
  shows "take K (drop (r * K) (concat (map f xs))) = f (xs ! r)"
  using assms
proof (induction xs arbitrary: r)
  case Nil
  then show ?case by simp
next
  case (Cons x xs)
  show ?case
  proof (cases r)
    case 0
    then show ?thesis using Cons.prems by simp
  next
    case (Suc r')
    have "drop (r * K) (f x @ concat (map f xs)) = drop (r' * K) (concat (map f xs))"
      using Cons.prems Suc by simp
    then show ?thesis using Cons Suc by simp
  qed
qed

lemma length_concat_rows:
  assumes "\<forall>x \<in> set xs. length (f x) = K"
  shows "length (concat (map f xs)) = length xs * K"
  using assms by (induction xs) simp_all

lemma mask_row_length:
  assumes "length d = P * C" "0 \<le> sint (b :: int32)" "sint b < int P"
  shows "length (take C (drop (nat (sint b) * C) d) @ [x]) = C + 1"
proof -
  have "Suc (nat (sint b)) \<le> P" using assms by simp
  then have "nat (sint b) * C + C \<le> P * C"
    using mult_le_mono1 [of "Suc (nat (sint b))" P C] by simp
  then show ?thesis using assms(1) by simp
qed

lemma update_attention_mask_with_beams_closed_form:
  assumes wf: "wf_tensor attention_mask" and sh: "shape attention_mask = [P, C]"
    and valid: "\<forall>b \<in> set next_beams. 0 \<le> sint b \<and> sint b < int P"
    and fitC: "C + 1 < 2 ^ 64" and fitN: "length next_beams * (C + 1) < 2 ^ 64"
  shows "update_attention_mask_with_beams mem attention_mask next_beams
         = Inr \<lparr>shape = [length next_beams, C + 1],
                data = concat (map (\<lambda>b. tensor_row attention_mask (nat (sint b)) @ [1]) next_beams)\<rparr>"
proof -
  define K where "K = C + 1"
  let ?orig = "\<lparr>shape = [P, C], data = data attention_mask\<rparr>"
  have len: "length (data ?orig) = P * C" and fitP: "P * C < 2 ^ 64"
    using wf sh by (simp_all add: wf_tensor_def)
  have K: "K = C + 1" by (simp add: K_def)
  have fitN': "length next_beams * K < 2 ^ 64" using fitN by (simp add: K_def)
  have buf: "length (map mem [0..<length next_beams * K]) = length next_beams * K"
    by simp
  have rows: "copy_beam_rows ?orig [P, C] [length next_beams, K] next_beams
                [0..<length next_beams] (map mem [0..<length next_beams * K])
              = Inr (concat (map (\<lambda>b. take C (drop (nat (sint b) * C) (data ?orig)) @ [1])
                               next_beams))"
    using copy_beam_rows_prefix [OF len fitP K valid buf fitN' order_refl]
    by simp
  have sK: "size_t (Suc C) = K" using fitC by (simp add: size_t_id K_def)
  have "update_attention_mask_with_beams mem attention_mask next_beams
        = Inr \<lparr>shape = [length next_beams, K],
               data = concat (map (\<lambda>b. take C (drop (nat (sint b) * C) (data ?orig)) @ [1])
                               next_beams)\<rparr>"
    unfolding update_attention_mask_with_beams_def Let_def
    using sh
    by (simp add: at_def and_then_Inr sK rows set_shape_def)
  then show ?thesis
    using sh by (simp add: tensor_row_def K_def)
qed

lemma copy_beam_row_no_exception:
  assumes "beam_id < length next_beams"
  shows "copy_beam_row original_mask [P, C] [N, K] next_beams beam_id buffer \<noteq> Inl Exception_out_of_range"
  using assms
  by (simp add: copy_beam_row_def at_def and_then_def memcpy_def store_def Let_def)

lemma fold_copy_beam_row_no_exception:
  assumes "\<forall>i \<in> set beam_ids. i < length next_beams" "acc \<noteq> Inl Exception_out_of_range"
  shows "fold (\<lambda>beam_id acc. and_then acc (copy_beam_row original_mask [P, C] [N, K] next_beams beam_id))
           beam_ids acc \<noteq> Inl Exception_out_of_range"
  using assms
proof (induction beam_ids arbitrary: acc)
  case Nil
  then show ?case by simp
next
  case (Cons i beam_ids)
  have "and_then acc (copy_beam_row original_mask [P, C] [N, K] next_beams i) \<noteq> Inl Exception_out_of_range"
  proof (cases acc)
    case (Inl e)
    then show ?thesis using Cons.prems(2) by (simp add: and_then_Inl)
  next
    case (Inr buffer)
    then show ?thesis using Cons.prems(1) by (simp add: and_then_Inr copy_beam_row_no_exception)
  qed
  then show ?case using Cons by simp
qed

lemma update_attention_mask_with_beams_no_exception:
  assumes sh: "shape attention_mask = [P, C]"
  shows "update_attention_mask_with_beams mem attention_mask next_beams \<noteq> Inl Exception_out_of_range"
proof -
  have "copy_beam_rows \<lparr>shape = [P, C], data = data attention_mask\<rparr> [P, C]
          [length next_beams, size_t (C + 1)] next_beams [0..<length next_beams]
          (data (set_shape mem [length next_beams, size_t (C + 1)])) \<noteq> Inl Exception_out_of_range"
    unfolding copy_beam_rows_def
    by (rule fold_copy_beam_row_no_exception) simp_all
  then show ?thesis
    unfolding update_attention_mask_with_beams_def Let_def using sh
    by (cases "copy_beam_rows \<lparr>shape = [P, C], data = data attention_mask\<rparr> [P, C]
          [length next_beams, size_t (C + 1)] next_beams [0..<length next_beams]
          (data (set_shape mem [length next_beams, size_t (C + 1)]))")
       (simp_all add: at_def and_then_Inr and_then_Inl)
qed

text \<open>
  Claim C1. For a beam mapping \<open>next_beams\<close> of length \<open>N\<close> whose entries are all valid row
  indices into a previous mask of shape \<open>(P, C)\<close>, \<^verbatim>\<open>update_attention_mask_with_beams\<close>
  returns a mask of shape \<open>(N, C + 1)\<close> whose row \<open>r\<close> is previous row \<open>next_beams[r]\<close> with
  a 1 appended. Nothing is assumed about repeated or missing entries of \<open>next_beams\<close>, so
  forking and pruning are covered, and the result is the same for every content \<open>mem\<close> of
  the resized buffer, in particular when it reuses the storage of the input. The two size
  bounds say that the new shape is representable in \<^verbatim>\<open>size_t\<close>, as the shape of any
  allocated tensor is.
\<close>

theorem update_attention_mask_with_beams_reorders_rows:
  assumes wf: "wf_tensor attention_mask" and sh: "shape attention_mask = [P, C]"
    and valid: "\<forall>b \<in> set next_beams. 0 \<le> sint b \<and> sint b < int P"
    and fitC: "C + 1 < 2 ^ 64" and fitN: "length next_beams * (C + 1) < 2 ^ 64"
  shows "\<exists>new_mask.
           update_attention_mask_with_beams mem attention_mask next_beams = Inr new_mask \<and>
           shape new_mask = [length next_beams, C + 1] \<and>
           wf_tensor new_mask \<and>
           (\<forall>r < length next_beams.
              tensor_row new_mask r = tensor_row attention_mask (nat (sint (next_beams ! r))) @ [1]) \<and>
           (\<forall>mem'. update_attention_mask_with_beams mem' attention_mask next_beams = Inr new_mask)"
proof -
  let ?row = "\<lambda>b. tensor_row attention_mask (nat (sint b)) @ [1 :: int64]"
  let ?new = "\<lparr>shape = [length next_beams, C + 1], data = concat (map ?row next_beams)\<rparr>"
  have len: "length (data attention_mask) = P * C"
    using wf sh by (simp add: wf_tensor_def)
  have rl: "\<forall>b \<in> set next_beams. length (?row b) = C + 1"
  proof
    fix b assume "b \<in> set next_beams"
    then have "0 \<le> sint b" "sint b < int P" using valid by simp_all
    from mask_row_length [OF len this] show "length (?row b) = C + 1"
      using sh by (simp add: tensor_row_def)
  qed
  have eq: "update_attention_mask_with_beams mem' attention_mask next_beams = Inr ?new" for mem'
    by (rule update_attention_mask_with_beams_closed_form [OF wf sh valid fitC fitN])
  have dl: "length (data ?new) = length next_beams * (C + 1)"
    using length_concat_rows [OF rl] by simp
  have "length next_beams * 1 \<le> length next_beams * (C + 1)"
    by (rule mult_le_mono2) simp
  then have "length next_beams < 2 ^ 64" using fitN by simp
  then have wf': "wf_tensor ?new"
    using dl fitC fitN by (simp add: wf_tensor_def)
  have rows: "\<forall>r < length next_beams. tensor_row ?new r = ?row (next_beams ! r)"
  proof (intro allI impI)
    fix r assume "r < length next_beams"
    from concat_rows_nth [OF rl this] show "tensor_row ?new r = ?row (next_beams ! r)"
      by (simp add: tensor_row_def)
  qed
  show ?thesis
    using eq wf' rows by (intro exI [of _ ?new]) simp
qed

text \<open>Witness for C1: row 1 of a \<open>2 \<times> 2\<close> mask is forked, row 0 is moved last.\<close>

theorem update_attention_mask_with_beams_reorders_rows_witness:
  "wf_tensor \<lparr>shape = [2, 2], data = [1, 0, 1, 1 :: int64]\<rparr> \<and>
   list_all (\<lambda>b. 0 \<le> sint b \<and> sint b < 2) [1, 1, 0 :: int32] \<and>
   (\<exists>new_mask.
      update_attention_mask_with_beams (\<lambda>_. 7) \<lparr>shape = [2, 2], data = [1, 0, 1, 1]\<rparr> [1, 1, 0]
        = Inr new_mask \<and>
      shape new_mask = [3, 3] \<and>
      tensor_row new_mask 0 = [1, 1, 1] \<and>
      tensor_row new_mask 1 = [1, 1, 1] \<and>
      tensor_row new_mask 2 = [1, 0, 1])"
proof -
  let ?mask = "\<lparr>shape = [2, 2], data = [1, 0, 1, 1 :: int64]\<rparr>"
  have wf: "wf_tensor ?mask" by (simp add: wf_tensor_def)
  have sh: "shape ?mask = [2, 2]" by simp
  have valid: "\<forall>b \<in> set [1, 1, 0 :: int32]. 0 \<le> sint b \<and> sint b < int 2" by simp
  have fitC: "(2 :: nat) + 1 < 2 ^ 64" by simp
  have fitN: "length [1, 1, 0 :: int32] * (2 + 1) < 2 ^ 64" by simp
  from update_attention_mask_with_beams_reorders_rows [OF wf sh valid fitC fitN, of "\<lambda>_. 7"]
  obtain new_mask where
    r: "update_attention_mask_with_beams (\<lambda>_. 7) ?mask [1, 1, 0] = Inr new_mask"
       "shape new_mask = [3, 3]"
       "\<forall>r < 3. tensor_row new_mask r = tensor_row ?mask (nat (sint ([1, 1, 0 :: int32] ! r))) @ [1]"
    by auto
  have m: "tensor_row ?mask 0 = [1, 0]" "tensor_row ?mask 1 = [1, 1]"
    by (simp_all add: tensor_row_def)
  have "tensor_row new_mask 0 = [1, 1, 1]" "tensor_row new_mask 1 = [1, 1, 1]"
    "tensor_row new_mask 2 = [1, 0, 1]"
    using r(3) [rule_format, of 0] r(3) [rule_format, of 1] r(3) [rule_format, of 2] m
    by simp_all
  then show ?thesis using wf r(1,2) by simp
qed

text \<open>
  Claim C8, as amended. \<^verbatim>\<open>update_attention_mask_with_beams\<close> compares no entry of
  \<open>next_beams\<close> with the row count of the previous mask: on a rank-2 mask it never raises
  \<^verbatim>\<open>std::out_of_range\<close>, whatever \<open>next_beams\<close> holds. Under the precondition that all
  entries are in range (the mask well formed, the new shape representable) no access leaves
  a buffer and the call returns the new mask.
\<close>

theorem update_attention_mask_with_beams_unchecked:
  assumes sh: "shape attention_mask = [P, C]"
  shows "update_attention_mask_with_beams mem attention_mask next_beams \<noteq> Inl Exception_out_of_range \<and>
         (wf_tensor attention_mask \<and> (\<forall>b \<in> set next_beams. 0 \<le> sint b \<and> sint b < int P) \<and>
          C + 1 < 2 ^ 64 \<and> length next_beams * (C + 1) < 2 ^ 64 \<longrightarrow>
            (\<exists>new_mask. update_attention_mask_with_beams mem attention_mask next_beams = Inr new_mask))"
  using update_attention_mask_with_beams_no_exception [OF sh]
    update_attention_mask_with_beams_closed_form [OF _ sh]
  by simp

text \<open>Witness for C8 as amended: a \<open>2 \<times> 1\<close> mask, once with the out-of-range entry 2, once
  with the in-range mapping \<open>[1, 0]\<close>.\<close>

theorem update_attention_mask_with_beams_unchecked_witness:
  "shape \<lparr>shape = [2, 1], data = [1, 0 :: int64]\<rparr> = [2, 1] \<and>
   wf_tensor \<lparr>shape = [2, 1], data = [1, 0 :: int64]\<rparr> \<and>
   list_all (\<lambda>b. 0 \<le> sint b \<and> sint b < 2) [1, 0 :: int32] \<and>
   update_attention_mask_with_beams (\<lambda>_. 0) \<lparr>shape = [2, 1], data = [1, 0]\<rparr> [2] \<noteq> Inl Exception_out_of_range \<and>
   (\<exists>new_mask. update_attention_mask_with_beams (\<lambda>_. 0) \<lparr>shape = [2, 1], data = [1, 0]\<rparr> [1, 0] = Inr new_mask)"
proof -
  let ?mask = "\<lparr>shape = [2, 1], data = [1, 0 :: int64]\<rparr>"
  have sh: "shape ?mask = [2, 1]" by simp
  have wf: "wf_tensor ?mask" by (simp add: wf_tensor_def)
  have valid: "\<forall>b \<in> set [1, 0 :: int32]. 0 \<le> sint b \<and> sint b < int 2" by simp
  show ?thesis
    using update_attention_mask_with_beams_unchecked [OF sh, of "\<lambda>_. 0" "[2]"]
      update_attention_mask_with_beams_unchecked [OF sh, of "\<lambda>_. 0" "[1, 0]"] wf valid
    by simp
qed

text \<open>
  Counterexample to C8 as stated: with one previous row, the entry 1 is out of range. On a
  \<open>1 \<times> 1\<close> mask \<^verbatim>\<open>memcpy\<close> reads past the end of the saved copy and no error is raised;
  on a \<open>1 \<times> 0\<close> mask the out-of-range entry 5 goes unnoticed and the call returns
  normally.
\<close>

theorem update_attention_mask_with_beams_out_of_range_counterexample:
  "update_attention_mask_with_beams (\<lambda>_. 0) \<lparr>shape = [1, 1], data = [1]\<rparr> [1] = Inl Out_of_bounds_access \<and>
   update_attention_mask_with_beams (\<lambda>_. 0) \<lparr>shape = [1, 0], data = []\<rparr> [5]
     = Inr \<lparr>shape = [1, 1], data = [1]\<rparr>"
  by (simp add: update_attention_mask_with_beams_def copy_beam_rows_def copy_beam_row_def
      set_shape_def at_def and_then_def memcpy_def store_def size_t_def size_t_sub_def
      size_t_of_int32_def Let_def)

subsection \<open>The 32-bit accumulator of \<^verbatim>\<open>update_position_ids\<close>\<close>

lemma accumulate_step: "ucast ((scast (acc :: int32) :: int64) + x) = acc + (ucast x :: int32)"
proof -
  have "(ucast ((scast acc :: int64) + x) :: int32) = word_of_int (uint ((scast acc :: int64) + x))"
    by (simp only: ucast_eq)
  also have "uint ((scast acc :: int64) + x) = (uint (scast acc :: int64) + uint x) mod 2 ^ LENGTH(64)"
    by (simp only: uint_word_ariths)
  also have "uint (scast acc :: int64) = sint acc mod 2 ^ LENGTH(64)"
    by (simp only: scast_eq uint_word_of_int)
  finally have e: "(ucast ((scast acc :: int64) + x) :: int32)
     = word_of_int ((sint acc mod 2 ^ LENGTH(64) + uint x) mod 2 ^ LENGTH(64))" .
  have "take_bit LENGTH(32) ((sint acc mod 2 ^ LENGTH(64) + uint x) mod 2 ^ LENGTH(64))
        = take_bit LENGTH(32) (sint acc + uint x)"
  proof -
    have d: "(2 :: int) ^ 32 dvd 2 ^ 64" by (rule le_imp_power_dvd) simp
    have "((sint acc mod 2 ^ 64 + uint x) mod 2 ^ 64) mod 2 ^ 32 = (sint acc mod 2 ^ 64 + uint x) mod 2 ^ 32"
      using d by (rule mod_mod_cancel)
    also have "\<dots> = ((sint acc mod 2 ^ 64) mod 2 ^ 32 + uint x) mod 2 ^ 32"
      by (simp only: mod_add_left_eq)
    also have "(sint acc mod 2 ^ 64) mod 2 ^ 32 = sint acc mod 2 ^ 32"
      using d by (rule mod_mod_cancel)
    also have "(sint acc mod 2 ^ 32 + uint x) mod 2 ^ 32 = (sint acc + uint x) mod 2 ^ 32"
      by (simp only: mod_add_left_eq)
    finally show ?thesis by (simp add: take_bit_eq_mod)
  qed
  then have "(word_of_int ((sint acc mod 2 ^ LENGTH(64) + uint x) mod 2 ^ LENGTH(64)) :: int32)
        = word_of_int (sint acc + uint x)"
    by (simp only: word_of_int_eq_iff)
  also have "\<dots> = word_of_int (sint acc) + word_of_int (uint x)"
    by (simp only: wi_homs)
  also have "\<dots> = acc + ucast x"
    by (simp only: ucast_eq of_int_sint scast_id)
  finally show ?thesis using e by simp
qed

lemma accumulate_Cons: "accumulate (x # xs) init = accumulate xs (init + ucast x)"
  by (simp add: accumulate_def accumulate_step)

lemma accumulate_Nil: "accumulate [] init = init"
  by (simp add: accumulate_def)

lemma accumulate_mask:
  assumes "set xs \<subseteq> {0, 1}"
  shows "accumulate xs init = init + of_nat (count_list xs 1)"
  using assms
proof (induction xs arbitrary: init)
  case Nil
  show ?case by (simp add: accumulate_Nil)
next
  case (Cons x xs)
  then have "x = 0 \<or> x = 1" by auto
  then show ?case using Cons by (auto simp add: accumulate_Cons)
qed

lemma count_list_replicate_self: "count_list (replicate n x) x = n"
  by (induction n) simp_all

lemma scast_of_nat_small:
  assumes "n < 2 ^ 31"
  shows "(scast (of_nat n :: int32) :: int64) = of_nat n"
proof -
  have "sint (of_nat n :: int32) = int n"
    using assms by (simp add: signed_of_nat signed_take_bit_int_eq_self)
  then show ?thesis by (simp only: scast_eq) simp
qed



lemma size_t_sub_Suc0: "0 < n \<Longrightarrow> n < 2 ^ 64 \<Longrightarrow> size_t_sub n (Suc 0) = n - Suc 0"
  using size_t_sub_Suc [of "n - 1"] by simp

lemma position_of_row_ok:
  assumes len: "length (data attention_mask) = R * C" and fit: "R * C < 2 ^ 64"
    and C: "0 < C" "C \<le> 2 ^ 31"
    and bits: "set (data attention_mask) \<subseteq> {0, 1}"
    and batch: "batch < R" and buf: "length buffer = R"
  shows "position_of_row attention_mask C batch buffer
         = Inr (buffer[batch := of_nat (count_list (take (C - 1) (drop (batch * C) (data attention_mask))) 1)])"
proof -
  let ?cells = "take (C - 1) (drop (batch * C) (data attention_mask))"
  have "Suc batch * C \<le> R * C" using batch by (intro mult_le_mono1) simp
  then have row: "batch * C + C \<le> R * C" by simp
  then have off: "size_t (batch * C) = batch * C" using fit by (simp add: size_t_id)
  have "C < 2 ^ 64" using row fit by simp
  then have n: "size_t_sub C (Suc 0) = C - 1" using C(1) by (simp add: size_t_sub_Suc0)
  have rd: "read_range (data attention_mask) (batch * C) (C - 1) = Inr ?cells"
    using row len by (simp add: read_range_def)
  have "set ?cells \<subseteq> set (data attention_mask)"
    by (meson set_take_subset set_drop_subset subset_trans)
  then have cb: "set ?cells \<subseteq> {0, 1}" using bits by simp
  have "count_list ?cells 1 \<le> length ?cells" by (rule count_le_length)
  moreover have "length ?cells \<le> C - 1" by simp
  ultimately have small: "count_list ?cells 1 < 2 ^ 31" using C by linarith
  have acc: "(scast (accumulate ?cells 0) :: int64) = of_nat (count_list ?cells 1)"
    using accumulate_mask [OF cb, of 0] scast_of_nat_small [OF small] by simp
  show ?thesis
    unfolding position_of_row_def
    using batch buf rd acc by (simp add: off n and_then_Inr store_def)
qed

lemma position_rows_prefix:
  assumes len: "length (data attention_mask) = R * C" and fit: "R * C < 2 ^ 64"
    and C: "0 < C" "C \<le> 2 ^ 31"
    and bits: "set (data attention_mask) \<subseteq> {0, 1}"
    and buf: "length buffer = R" and k: "k \<le> R"
  shows "fold (\<lambda>batch acc. and_then acc (position_of_row attention_mask C batch)) [0..<k] (Inr buffer)
         = Inr (map (\<lambda>r. of_nat (count_list (take (C - 1) (drop (r * C) (data attention_mask))) 1)) [0..<k]
                @ drop k buffer)"
  using k
proof (induction k)
  case 0
  show ?case by simp
next
  case (Suc k)
  let ?f = "\<lambda>r. of_nat (count_list (take (C - 1) (drop (r * C) (data attention_mask))) 1) :: int64"
  let ?b = "map ?f [0..<k] @ drop k buffer"
  have kR: "k < R" using Suc.prems by simp
  have bl: "length ?b = R" using buf kR by simp
  have upd: "?b[k := ?f k] = map ?f [0..<Suc k] @ drop (Suc k) buffer"
  proof -
    have "drop k buffer = buffer ! k # drop (Suc k) buffer"
      using kR buf by (simp add: Cons_nth_drop_Suc)
    then have "?b[k := ?f k] = map ?f [0..<k] @ (?f k # drop (Suc k) buffer)"
      by (simp add: list_update_append)
    then show ?thesis by simp
  qed
  have "fold (\<lambda>batch acc. and_then acc (position_of_row attention_mask C batch)) [0..<Suc k] (Inr buffer)
        = position_of_row attention_mask C k ?b"
    using Suc.IH kR by (simp add: and_then_Inr)
  also have "\<dots> = Inr (?b[k := ?f k])"
    by (rule position_of_row_ok [OF len fit C bits kR bl])
  finally show ?case by (simp only: upd)
qed

text \<open>
  As long as a row has at most \<open>2 ^ 31\<close> columns the 32-bit accumulator cannot overflow, and
  on a 0/1 mask the position id of row \<open>r\<close> is the number of 1s among its first \<open>C - 1\<close>
  entries.
\<close>

lemma update_position_ids_counts:
  assumes wf: "wf_tensor attention_mask" and sh: "shape attention_mask = [R, C]"
    and C: "0 < C" "C \<le> 2 ^ 31"
    and bits: "set (data attention_mask) \<subseteq> {0, 1}"
  shows "update_position_ids mem position_ids attention_mask
         = Inr \<lparr>shape = [R, 1],
                data = map (\<lambda>r. of_nat (count_list (take (C - 1) (tensor_row attention_mask r)) 1)) [0..<R]\<rparr>"
proof -
  have len: "length (data attention_mask) = R * C" and fit: "R * C < 2 ^ 64"
    using wf sh by (simp_all add: wf_tensor_def)
  have buf: "length (map mem [0..<R]) = R" by simp
  have tk: "take (C - 1) (take C xs) = take (C - 1) xs" for xs :: "int64 list"
    by (simp add: min_def)
  show ?thesis
    unfolding update_position_ids_def Let_def using sh
    by (simp add: at_def and_then_Inr set_shape_def tensor_row_def tk
        position_rows_prefix [OF len fit C bits buf order_refl])
qed

text \<open>
  Claim C2 at its failing input. The mask has one row of \<open>2 ^ 31 + 1\<close> ones, so the count of
  1s among the first \<open>C - 1\<close> entries is \<open>2 ^ 31\<close>. The \<^verbatim>\<open>int\<close> accumulator of
  \<^verbatim>\<open>std::accumulate(..., 0)\<close> wraps around and the position id written is \<open>- 2 ^ 31\<close>.
\<close>

theorem update_position_ids_int_accumulator_overflow:
  "update_position_ids mem position_ids \<lparr>shape = [1, 2147483649], data = replicate 2147483649 1\<rparr>
     = Inr \<lparr>shape = [1, 1], data = [- 2147483648]\<rparr> \<and>
   sint (- 2147483648 :: int64) = - 2147483648 \<and>
   int (count_list (take (2147483649 - 1) (replicate 2147483649 (1 :: int64))) 1) = 2147483648"
proof -
  have acc: "accumulate (replicate 2147483648 (1 :: int64)) 0 = 2147483648"
    using accumulate_mask [of "replicate 2147483648 1" 0]
    by (simp add: count_list_replicate_self)
  have rd: "read_range (replicate 2147483649 (1 :: int64)) 0 2147483648 = Inr (replicate 2147483648 1)"
    by (simp add: read_range_def)
  have n: "size_t_sub 2147483649 (Suc 0) = 2147483648"
    using size_t_sub_Suc0 [of 2147483649] by simp
  have "update_position_ids mem position_ids
          \<lparr>shape = [1, 2147483649], data = replicate 2147483649 1\<rparr>
        = Inr \<lparr>shape = [1, 1], data = [- 2147483648]\<rparr>"
    unfolding update_position_ids_def Let_def
    by (simp add: at_def and_then_Inr set_shape_def position_of_row_def size_t_def n rd acc store_def)
  then show ?thesis by (simp add: count_list_replicate_self)
qed

section \<open>Properties of the Decode Loop Orchestrator\<close>

subsection \<open>Evaluation at concrete inputs\<close>

lemmas example_defs = example_env_def example_infer_def example_engine_def example_sample_def
  example_sample_group_def example_beam_idxs_def example_group_def example_sequence_def example_sampler_def

lemmas orchestrator_defs = get_lm_encoded_results_def prompt_phase_def subscript_def input_shape_def
  bind_prompt_inputs_def at_def schedule_prompt_def initial_beam_offets_def finish_phase_def
  last_token_of_best_sequence_def generation_step_def schedule_step_def build_step_inputs_def
  fill_group_def fill_sequence_def write_tokens_def token_at_def beam_index_def
  recompute_beam_offets_def beam_idx_view_def retire_finished_def assemble_results_def
  assemble_group_def release_requests_def clear_request_info_def map_at_def map_insert_def
  map_subscript_def get_prompt_len_def num_running_seqs_def schedule_tokens_def
  update_processed_tokens_num_def size_t_def size_t_sub_def size_t_of_int32_def set_shape_def store_def

lemmas updater_defs = update_attention_mask_with_beams_def copy_beam_rows_def copy_beam_row_def memcpy_def
  update_position_ids_def position_of_row_def read_range_def accumulate_def

subsection \<open>Result assembly\<close>

lemma assemble_fold:
  assumes "k \<le> length sequences"
  shows "fold (\<lambda>seq_id r. r\<lparr>tokens := tokens r @ [f (sequences ! seq_id)],
                              scores := scores r @ [s (sequences ! seq_id)]\<rparr>) [0..<k] results
         = results\<lparr>tokens := tokens results @ map f (take k sequences),
                    scores := scores results @ map s (take k sequences)\<rparr>"
  using assms
proof (induction k)
  case 0
  show ?case by simp
next
  case (Suc k)
  then have "k < length sequences" by simp
  then have "take (Suc k) sequences = take k sequences @ [sequences ! k]"
    by (simp add: take_Suc_conv_app_nth)
  then show ?case using Suc by simp
qed

lemma assemble_group_eq:
  "assemble_group g results
   = results\<lparr>tokens := tokens results @ map generated_ids (spec_returned_sequences g),
              scores := scores results @ map (spec_score g) (spec_returned_sequences g)\<rparr>"
  unfolding assemble_group_def Let_def spec_returned_sequences_def
  using assemble_fold [where k = "min (num_return_sequences (sampling_parameters g)) (length (finished_sequences g))"
      and sequences = "finished_sequences g" and f = generated_ids and s = "spec_score g"
      and results = results]
  by (simp add: spec_score_def [abs_def])

lemma fold_assemble_group:
  "fold (\<lambda>p r. assemble_group (store_of p) r) sequence_groups results
   = results\<lparr>tokens := tokens results
                 @ concat (map (\<lambda>p. map generated_ids (spec_returned_sequences (store_of p))) sequence_groups),
              scores := scores results
                 @ concat (map (\<lambda>p. map (spec_score (store_of p)) (spec_returned_sequences (store_of p)))
                             sequence_groups)\<rparr>"
proof (induction sequence_groups arbitrary: results)
  case Nil
  show ?case by simp
next
  case (Cons p ps)
  have "fold (\<lambda>p r. assemble_group (store_of p) r) (p # ps) results
        = fold (\<lambda>p r. assemble_group (store_of p) r) ps (assemble_group (store_of p) results)"
    by simp
  also note Cons.IH
  finally show ?case by (simp add: assemble_group_eq)
qed

lemma assemble_results_eq:
  "assemble_results store_of sequence_groups
   = \<lparr>tokens = concat (map (\<lambda>p. map generated_ids (spec_returned_sequences (store_of p))) sequence_groups),
      scores = concat (map (\<lambda>p. map (spec_score (store_of p)) (spec_returned_sequences (store_of p)))
                         sequence_groups)\<rparr>"
  by (simp add: assemble_results_def fold_assemble_group)

lemma request_info_release:
  "request_info (release_requests store_of sequence_groups sampler_in) request
   = (if request \<in> (\<lambda>p. request_id (store_of p)) ` set sequence_groups then None
      else request_info sampler_in request)"
proof (induction sequence_groups arbitrary: sampler_in)
  case Nil
  show ?case by (simp add: release_requests_def)
next
  case (Cons p ps)
  have "release_requests store_of (p # ps) sampler_in
        = release_requests store_of ps (clear_request_info sampler_in (request_id (store_of p)))"
    by (simp add: release_requests_def)
  then show ?case by (simp add: Cons.IH clear_request_info_def)
qed

text \<open>
  Claim C7. The result assembly returns, for every original group in order, exactly the first
  \<open>min(num_return_sequences, number of finished hypotheses)\<close> finished hypotheses, each with
  its whole list of generated token ids and with the beam-search score under beam search,
  the cumulative log-probability otherwise. The bookkeeping of the sampling policy is then
  released for the request id of every group, and the call returns exactly these results
  and this sampler.
\<close>

theorem result_assembly:
  "tokens (assemble_results store_of sequence_groups)
     = concat (map (\<lambda>p. map generated_ids (spec_returned_sequences (store_of p))) sequence_groups) \<and>
   scores (assemble_results store_of sequence_groups)
     = concat (map (\<lambda>p. map (spec_score (store_of p)) (spec_returned_sequences (store_of p)))
                 sequence_groups) \<and>
   (\<forall>p. length (spec_returned_sequences (store_of p))
          = min (num_return_sequences (sampling_parameters (store_of p)))
                (length (finished_sequences (store_of p)))) \<and>
   (\<forall>p \<in> set sequence_groups.
      request_info (release_requests store_of sequence_groups sampler_in) (request_id (store_of p)) = None) \<and>
   (\<forall>results hint st'.
      finish_phase st sequence_groups = Inr ((results, hint), st') \<longrightarrow>
        results = assemble_results (groups st) sequence_groups \<and>
        sampler st' = release_requests (groups st) sequence_groups (sampler st) \<and>
        groups st' = groups st)"
proof -
  have "finish_phase st sequence_groups = Inr ((results, hint), st') \<Longrightarrow>
        results = assemble_results (groups st) sequence_groups \<and>
        sampler st' = release_requests (groups st) sequence_groups (sampler st) \<and>
        groups st' = groups st" for results hint st'
    by (cases "last_token_of_best_sequence (groups st) sequence_groups
                 (assemble_results (groups st) sequence_groups)")
       (auto simp add: finish_phase_def Let_def and_then_def)
  then show ?thesis
    by (simp add: assemble_results_eq request_info_release spec_returned_sequences_def)
qed

text \<open>Witness for C7: two groups with two finished hypotheses each and
  \<open>num_return_sequences = 1\<close>.\<close>

theorem result_assembly_witness:
  "tokens (assemble_results
             (\<lambda>p. (example_group p [5] 0)\<lparr>finished_sequences :=
                      [example_sequence 0 [40, 41] Reason_LENGTH, example_sequence 1 [40, 42] Reason_LENGTH]\<rparr>)
             [0, 1]) = [[40, 41], [40, 41]] \<and>
   scores (assemble_results
             (\<lambda>p. (example_group p [5] 0)\<lparr>finished_sequences :=
                      [example_sequence 0 [40, 41] Reason_LENGTH, example_sequence 1 [40, 42] Reason_LENGTH]\<rparr>)
             [0, 1]) = [- 1, - 1] \<and>
   request_info (release_requests
                   (\<lambda>p. (example_group p [5] 0)\<lparr>finished_sequences :=
                      [example_sequence 0 [40, 41] Reason_LENGTH, example_sequence 1 [40, 42] Reason_LENGTH]\<rparr>)
                   [0, 1] \<lparr>request_info = [0 \<mapsto> (), 1 \<mapsto> ()], sampler_internal = ()\<rparr>) 1 = None"
proof -
  let ?store = "\<lambda>p. (example_group p [5] 0)\<lparr>finished_sequences :=
                      [example_sequence 0 [40, 41] Reason_LENGTH, example_sequence 1 [40, 42] Reason_LENGTH]\<rparr>"
  let ?sampler = "\<lparr>request_info = [0 \<mapsto> (), 1 \<mapsto> ()], sampler_internal = ()\<rparr> :: (unit, unit) sampler_state"
  let ?st = "\<lparr>m_llm = example_engine, sampler = ?sampler, groups = ?store,
              active_sequence_groups = [], beam_offets = Map.empty\<rparr>"
  note r = result_assembly [where store_of = ?store and sequence_groups = "[0, 1]"
      and sampler_in = ?sampler and st = ?st]
  have ret: "spec_returned_sequences (?store p) = [example_sequence 0 [40, 41] Reason_LENGTH]" for p
    by (simp add: spec_returned_sequences_def example_group_def)
  have sc: "spec_score (?store p) (example_sequence 0 [40, 41] Reason_LENGTH) = - 1" for p
    by (simp add: spec_score_def example_group_def example_sequence_def)
  have rid: "request_id (?store 1) = 1" by (simp add: example_group_def)
  have "1 \<in> set [0, 1 :: nat]" by simp
  with r have "request_info (release_requests ?store [0, 1] ?sampler) (request_id (?store 1)) = None"
    by blast
  then show ?thesis
    using r ret sc rid by (simp add: example_sequence_def)
qed

lemma first_returned_tokens:
  assumes "finished_sequences (store_of p) = best # others"
    and "0 < num_return_sequences (sampling_parameters (store_of p))"
  shows "tokens (assemble_results store_of (p # rest)) = generated_ids best # tl (tokens (assemble_results store_of (p # rest)))"
proof -
  obtain n where n: "num_return_sequences (sampling_parameters (store_of p)) = Suc n"
    using assms(2) by (cases "num_return_sequences (sampling_parameters (store_of p))") auto
  show ?thesis
    using assms(1) n by (simp add: assemble_results_eq spec_returned_sequences_def)
qed

lemma last_token_of_best_sequence_eq:
  assumes fin: "finished_sequences (store_of p) = best # others"
    and ret: "0 < num_return_sequences (sampling_parameters (store_of p))"
    and ids: "generated_ids best \<noteq> []"
  shows "last_token_of_best_sequence store_of (p # rest) (assemble_results store_of (p # rest))
         = Inr (if finish_reason best = Reason_LENGTH \<or> handle_dropped (store_of p)
                then Some (last (generated_ids best)) else None)"
proof -
  have "subscript (tokens (assemble_results store_of (p # rest))) 0 = Inr (generated_ids best)"
    by (subst first_returned_tokens [where store_of = store_of and p = p, OF fin ret])
       (simp add: subscript_def)
  then show ?thesis
    using fin ids by (simp add: last_token_of_best_sequence_def subscript_def and_then_Inr)
qed

text \<open>
  Claim C5. When the loop has ended, the first group has a finished hypothesis \<open>best\<close> with
  at least one generated token, and at least one hypothesis is returned for it, then
  \<^verbatim>\<open>get_lm_encoded_results\<close> returns; \<open>best\<close> is the first returned hypothesis; the
  disappeared-token hint is present if and only if \<open>best\<close> finished by the length limit or the
  handle of the first group was dropped; and a present hint is the last generated token of
  \<open>best\<close>.
\<close>

theorem disappeared_token_hint:
  assumes prompt: "prompt_phase env engine input_ids attention_mask sampler_in store_of sequence_groups
                     position_ids m_embedding = Inr st_prompt"
    and loop: "generation_loop fuel env m_embedding (position_ids \<noteq> None) st_prompt = Some (Inr st)"
    and first: "sequence_groups = p # rest"
    and fin: "finished_sequences (groups st p) = best # others"
    and ret: "0 < num_return_sequences (sampling_parameters (groups st p))"
    and ids: "generated_ids best \<noteq> []"
  shows "\<exists>results hint st'.
           get_lm_encoded_results fuel env engine input_ids attention_mask sampler_in store_of sequence_groups
             position_ids m_embedding = Some (Inr ((results, hint), st')) \<and>
           tokens results ! 0 = generated_ids best \<and>
           (hint \<noteq> None \<longleftrightarrow> finish_reason best = Reason_LENGTH \<or> handle_dropped (groups st p)) \<and>
           (hint \<noteq> None \<longrightarrow> hint = Some (last (generated_ids best)))"
proof -
  let ?results = "assemble_results (groups st) (p # rest)"
  let ?hint = "if finish_reason best = Reason_LENGTH \<or> handle_dropped (groups st p)
               then Some (last (generated_ids best)) else None"
  let ?st' = "st\<lparr>sampler := release_requests (groups st) (p # rest) (sampler st)\<rparr>"
  have "finish_phase st (p # rest) = Inr ((?results, ?hint), ?st')"
    unfolding finish_phase_def Let_def
    by (simp only: last_token_of_best_sequence_eq [where store_of = "groups st" and p = p, OF fin ret ids]
          and_then_Inr)
  then have run: "get_lm_encoded_results fuel env engine input_ids attention_mask sampler_in store_of
                    sequence_groups position_ids m_embedding = Some (Inr ((?results, ?hint), ?st'))"
    using prompt loop first by (simp add: get_lm_encoded_results_def)
  have t0: "tokens ?results ! 0 = generated_ids best"
    by (subst first_returned_tokens [where store_of = "groups st" and p = p, OF fin ret]) simp
  show ?thesis
    using run t0 by (intro exI [of _ ?results] exI [of _ ?hint] exI [of _ ?st']) simp
qed

text \<open>Witness for C5: one request that the example policy finishes by length after one
  token.\<close>

theorem disappeared_token_hint_witness:
  "\<exists>results hint st'.
     get_lm_encoded_results (Suc 0) (example_env 1) example_engine
       (Token_ids \<lparr>shape = [1, 3], data = [5, 6, 7]\<rparr>) \<lparr>shape = [1, 3], data = [1, 1, 1]\<rparr>
       example_sampler (\<lambda>p. example_group p [5, 6, 7] 1) [0] None None
       = Some (Inr ((results, hint), st')) \<and>
     tokens results ! 0 = [40] \<and> hint = Some 40"
proof -
  have "\<exists>st_prompt st.
          prompt_phase (example_env 1) example_engine (Token_ids \<lparr>shape = [1, 3], data = [5, 6, 7]\<rparr>)
            \<lparr>shape = [1, 3], data = [1, 1, 1]\<rparr> example_sampler (\<lambda>p. example_group p [5, 6, 7] 1) [0]
            None None = Inr st_prompt \<and>
          generation_loop (Suc 0) (example_env 1) None (None \<noteq> (None :: int64 tensor option)) st_prompt = Some (Inr st) \<and>
          finished_sequences (groups st 0) = [example_sequence 0 [40] Reason_LENGTH] \<and>
          0 < num_return_sequences (sampling_parameters (groups st 0)) \<and>
          \<not> handle_dropped (groups st 0)"
    by (simp add: example_defs orchestrator_defs updater_defs and_then_def Let_def upt_rec)
  then obtain st_prompt st where
    h: "prompt_phase (example_env 1) example_engine (Token_ids \<lparr>shape = [1, 3], data = [5, 6, 7]\<rparr>)
            \<lparr>shape = [1, 3], data = [1, 1, 1]\<rparr> example_sampler (\<lambda>p. example_group p [5, 6, 7] 1) [0]
            None None = Inr st_prompt"
       "generation_loop (Suc 0) (example_env 1) None (None \<noteq> (None :: int64 tensor option)) st_prompt = Some (Inr st)"
       "finished_sequences (groups st 0) = example_sequence 0 [40] Reason_LENGTH # []"
       "0 < num_return_sequences (sampling_parameters (groups st 0))"
    by auto
  have ids: "generated_ids (example_sequence 0 [40] Reason_LENGTH :: int sequence) \<noteq> []"
    by (simp add: example_sequence_def)
  from disappeared_token_hint [OF h(1) h(2) refl h(3) h(4) ids]
  show ?thesis by (auto simp add: example_sequence_def)
qed

lemma upt_3: "[0..<3] = [0, 1, 2]" by (simp add: upt_rec)

lemma upt_4: "[0..<4] = [0, 1, 2, 3]" by (simp add: upt_rec)

text \<open>
  When every active group's request id is its position in the active list, the entry
  \<^verbatim>\<open>beam_offets[i - 1]\<close> is the offset of the previous active group, and the recomputed
  offsets are the prefix sums of the hypothesis counts.
\<close>

lemma recompute_beam_offets_prefix:
  assumes ids: "\<forall>i < length active. request_id (store_of (active ! i)) = i"
    and k: "k \<le> length active"
  shows "\<forall>i < k.
           fold (\<lambda>i m.
                   let (offset, m') =
                         (if i = 0 then (0, m)
                          else (let (previous, m1) = map_subscript m (i - 1)
                                in (num_running_seqs (store_of (active ! (i - 1))) + previous, m1)))
                   in m'(request_id (store_of (active ! i)) \<mapsto> offset))
             [0..<k] offsets i
           = Some (sum_list (map (\<lambda>p. num_running_seqs (store_of p)) (take i active)))"
  using k
proof (induction k)
  case 0
  show ?case by simp
next
  case (Suc k)
  define step where
    "step = (\<lambda>i m.
                   let (offset, m') =
                         (if i = 0 then (0, m)
                          else (let (previous, m1) = map_subscript m (i - 1)
                                in (num_running_seqs (store_of (active ! (i - 1))) + previous, m1)))
                   in m'(request_id (store_of (active ! i)) \<mapsto> offset))"
  define m where "m = fold step [0..<k] offsets"
  define total where
    "total = (\<lambda>i. sum_list (map (\<lambda>p. num_running_seqs (store_of p)) (take i active)))"
  have kl: "k < length active" using Suc.prems by simp
  then have "k \<le> length active" by simp
  then have IH: "\<forall>i < k. m i = Some (total i)"
    unfolding m_def step_def total_def by (rule Suc.IH)
  have rid: "request_id (store_of (active ! k)) = k" using ids kl by simp
  have new: "step k m = m(k \<mapsto> total k)"
  proof (cases k)
    case 0
    then show ?thesis using rid by (simp add: step_def total_def)
  next
    case (Suc j)
    have "m j = Some (total j)" using IH Suc by simp
    then have sub: "map_subscript m j = (total j, m)" by (simp add: map_subscript_def)
    have "j < length active" using kl Suc by simp
    then have "total (Suc j) = num_running_seqs (store_of (active ! j)) + total j"
      by (simp add: total_def take_Suc_conv_app_nth)
    then show ?thesis using rid Suc sub by (simp add: step_def Let_def)
  qed
  have "fold step [0..<Suc k] offsets = step k m" by (simp add: m_def)
  then have e: "fold step [0..<Suc k] offsets = m(k \<mapsto> total k)" by (simp only: new)
  have "\<forall>i < Suc k. fold step [0..<Suc k] offsets i = Some (total i)"
  proof (intro allI impI)
    fix i assume "i < Suc k"
    then consider "i = k" | "i < k" by linarith
    then show "fold step [0..<Suc k] offsets i = Some (total i)"
    proof cases
      case 1
      then show ?thesis unfolding e by simp
    next
      case 2
      then show ?thesis using IH unfolding e by simp
    qed
  qed
  then show ?case unfolding step_def total_def .
qed

lemma recompute_beam_offets_when_ids_are_positions:
  assumes "\<forall>i < length active. request_id (store_of (active ! i)) = i"
    and "i < length active"
  shows "recompute_beam_offets store_of active offsets i
         = Some (sum_list (map (\<lambda>p. num_running_seqs (store_of p)) (take i active)))"
  unfolding recompute_beam_offets_def
  using recompute_beam_offets_prefix [OF assms(1) order_refl] assms(2) by blast

text \<open>
  Claim C3 at its failing inputs. Four requests with ids 0 to 3 and one hypothesis each;
  request 0 has finished, so the active list is \<open>[1, 2, 3]\<close> and the prefix sums of the
  hypothesis counts are 0, 1, 2. The recomputation gives request 3 the offset 1: its
  right-hand side reads \<^verbatim>\<open>beam_offets[i - 1]\<close>, the entry of request id \<open>i - 1 = 1\<close>,
  where the offset of the previous active group, request 2, was meant. With two requests of
  ids 1 and 0, in this order, the second request gets the offset 2 instead of 1.
\<close>

theorem recompute_beam_offets_not_prefix_sum:
  "map (recompute_beam_offets (\<lambda>p. example_group p [5] 1) [1, 2, 3]
          (initial_beam_offets (\<lambda>p. example_group p [5] 1) [0, 1, 2, 3])) [1, 2, 3]
     = [Some 0, Some 1, Some 1] \<and>
   map (\<lambda>p. num_running_seqs (example_group p [5] 1)) [1, 2, 3] = [1, 1, 1] \<and>
   map (recompute_beam_offets (\<lambda>p. example_group (1 - p) [5] 1) [0, 1]
          (initial_beam_offets (\<lambda>p. example_group (1 - p) [5] 1) [0, 1])) [1, 0]
     = [Some 0, Some 2]"
  by (simp add: recompute_beam_offets_def initial_beam_offets_def map_insert_def map_subscript_def
        num_running_seqs_def example_group_def upt_3 upt_4 upt_rec)

text \<open>
  Claim C9, as amended. \<^verbatim>\<open>get_lm_encoded_results\<close> has no check for an empty
  \<open>sequence_groups\<close>. When the input tensor has a first dimension and the engine returns
  logits of rank two or more, the call binds the inputs, runs the engine and the sampling
  policy for the prompt step, skips the loop, and ends in the unchecked read of
  \<^verbatim>\<open>sequence_groups[0]\<close>: no error is reported.
\<close>

theorem empty_sequence_groups_not_rejected:
  assumes rank: "input_shape input_ids \<noteq> []"
    and logits: "1 < length (shape (t_logits (infer env
                   (bind_prompt_inputs engine input_ids attention_mask position_ids (m_embedding \<noteq> None)
                      (input_shape input_ids ! 0)))))"
  shows "\<exists>st. prompt_phase env engine input_ids attention_mask sampler_in store_of [] position_ids m_embedding
                = Inr st \<and>
              m_llm st = infer env (bind_prompt_inputs engine input_ids attention_mask position_ids
                                      (m_embedding \<noteq> None) (input_shape input_ids ! 0)) \<and>
              generation_loop fuel env m_embedding (position_ids \<noteq> None) st = Some (Inr st) \<and>
              get_lm_encoded_results fuel env engine input_ids attention_mask sampler_in store_of []
                position_ids m_embedding = Some (Inl Out_of_bounds_access)"
proof -
  let ?engine = "infer env (bind_prompt_inputs engine input_ids attention_mask position_ids
                              (m_embedding \<noteq> None) (input_shape input_ids ! 0))"
  let ?sampled = "sample env sampler_in store_of [] (t_logits ?engine)"
  let ?st = "\<lparr>m_llm = ?engine, sampler = fst ?sampled, groups = snd ?sampled,
              active_sequence_groups = [], beam_offets = Map.empty\<rparr>"
  have p: "prompt_phase env engine input_ids attention_mask sampler_in store_of [] position_ids m_embedding
           = Inr ?st"
    using rank logits
    by (simp add: prompt_phase_def subscript_def at_def and_then_Inr Let_def schedule_prompt_def
        initial_beam_offets_def case_prod_beta)
  have l: "generation_loop fuel env m_embedding (position_ids \<noteq> None) ?st = Some (Inr ?st)"
    by (cases fuel) simp_all
  have f: "finish_phase ?st [] = Inl Out_of_bounds_access"
    by (simp add: finish_phase_def last_token_of_best_sequence_def subscript_def and_then_Inl Let_def)
  have "get_lm_encoded_results fuel env engine input_ids attention_mask sampler_in store_of []
          position_ids m_embedding = Some (Inl Out_of_bounds_access)"
    unfolding get_lm_encoded_results_def by (simp only: p l f sum.case option.case)
  then show ?thesis using p l by (intro exI [of _ ?st]) simp
qed

text \<open>Witness for C9 as amended, with the example engine and policy.\<close>

theorem empty_sequence_groups_not_rejected_witness:
  "input_shape (Token_ids \<lparr>shape = [1, 3], data = [5, 6, 7]\<rparr> :: unit model_input) \<noteq> [] \<and>
   get_lm_encoded_results (Suc 0) (example_env 3) example_engine
     (Token_ids \<lparr>shape = [1, 3], data = [5, 6, 7]\<rparr>) \<lparr>shape = [1, 3], data = [1, 1, 1]\<rparr>
     example_sampler (\<lambda>p. example_group p [5, 6, 7] 1) [] None None = Some (Inl Out_of_bounds_access)"
proof -
  have rank: "input_shape (Token_ids \<lparr>shape = [1, 3], data = [5, 6, 7]\<rparr> :: unit model_input) \<noteq> []"
    by (simp add: input_shape_def)
  have logits: "1 < length (shape (t_logits (infer (example_env 3)
                   (bind_prompt_inputs example_engine (Token_ids \<lparr>shape = [1, 3], data = [5, 6, 7]\<rparr>)
                      \<lparr>shape = [1, 3], data = [1, 1, 1]\<rparr> None
                      ((None :: (int64 tensor \<Rightarrow> unit tensor) option) \<noteq> None)
                      (input_shape (Token_ids \<lparr>shape = [1, 3], data = [5, 6, 7]\<rparr> :: unit model_input) ! 0)))))"
    by (simp add: example_env_def example_infer_def)
  from empty_sequence_groups_not_rejected [OF rank logits, where fuel = "Suc 0"
      and sampler_in = example_sampler and store_of = "\<lambda>p. example_group p [5, 6, 7] 1"]
  show ?thesis using rank by auto
qed

text \<open>
  Counterexample to C9 as stated: with no groups the prompt phase completes, the engine
  has been called once (its state counter is 1), and the call ends in an out-of-bounds
  read, not in a rejection.
\<close>

theorem empty_sequence_groups_counterexample:
  "get_lm_encoded_results 0 (example_env 3) example_engine
     (Token_ids \<lparr>shape = [1, 3], data = [5, 6, 7]\<rparr>) \<lparr>shape = [1, 3], data = [1, 1, 1]\<rparr>
     example_sampler (\<lambda>p. example_group p [5, 6, 7] 1) [] None None = Some (Inl Out_of_bounds_access) \<and>
   (case prompt_phase (example_env 3) example_engine
           (Token_ids \<lparr>shape = [1, 3], data = [5, 6, 7]\<rparr>) \<lparr>shape = [1, 3], data = [1, 1, 1]\<rparr>
           example_sampler (\<lambda>p. example_group p [5, 6, 7] 1) [] None None of
      Inl e \<Rightarrow> False
    | Inr st \<Rightarrow> kv_state (m_llm st) = 1 \<and> active_sequence_groups st = [])"
  by (simp add: example_defs orchestrator_defs and_then_def Let_def)

section \<open>Properties of the Pipeline Facade\<close>

lemmas facade_defs = generate_def prepare_turn_def trim_kv_cache_def reset_state_def
  construct_pipeline_def fill_prompt_ids_def example_facade_def

lemma trim_kv_cache_mask: "t_attention_mask (trim_kv_cache fenv request n) = t_attention_mask request"
  by (simp add: trim_kv_cache_def)

lemma prepare_turn_Inr:
  assumes "prepare_turn fenv pl prompt config = Inr t"
  shows "turn_embedder t = fst (get_inputs_embeds fenv (m_inputs_embedder pl) prompt) \<and>
         inputs_embeds t = snd (get_inputs_embeds fenv (m_inputs_embedder pl) prompt) \<and>
         to_remove_from_hist t = get_num_tokens_to_remove_from_hist fenv (turn_embedder t) \<and>
         turn_language t = trim_kv_cache fenv (m_language pl) (to_remove_from_hist t) \<and>
         1 < length (shape (t_attention_mask (m_language pl))) \<and>
         1 < length (shape (inputs_embeds t)) \<and>
         inputs_embeds_size t = shape (inputs_embeds t) ! 1 \<and>
         history_size t = size_t_sub (shape (t_attention_mask (m_language pl)) ! 1) (to_remove_from_hist t) \<and>
         new_atten_mask t = \<lparr>shape = [1, size_t (history_size t + inputs_embeds_size t)],
                              data = replicate (size_t (history_size t + inputs_embeds_size t)) 1\<rparr>"
  using assms
  by (auto simp add: prepare_turn_def Let_def case_prod_beta at_def and_then_def trim_kv_cache_mask
      fill_prompt_ids_def split: if_splits)

lemma size_t_sub_le:
  assumes "b \<le> a" "a < 2 ^ 64"
  shows "size_t_sub a b = a - b"
proof -
  have "size_t_sub a b = (a + 2 ^ 64 - b) mod 2 ^ 64"
    using assms by (simp add: size_t_sub_def size_t_def)
  also have "a + 2 ^ 64 - b = (a - b) + 2 ^ 64"
    using assms by simp
  also have "((a - b) + 2 ^ 64) mod 2 ^ 64 = (a - b) mod 2 ^ 64"
    by simp
  also have "\<dots> = a - b"
    using assms by (intro mod_less) arith
  finally show ?thesis .
qed

text \<open>
  Claim C6. At the start of a turn \<^verbatim>\<open>generate\<close> reads the column count of the engine's
  current attention mask (the cache trim does not change it) and subtracts
  \<open>to_remove_from_hist\<close> from it, in \<^verbatim>\<open>size_t\<close>; no other state enters \<open>history_size\<close>. The
  mask it builds, which is the mask bound to the engine for the prompt step, is all ones
  and has \<open>history_size + inputs_embeds_size\<close> entries, again in \<^verbatim>\<open>size_t\<close>. When
  \<open>to_remove_from_hist\<close> does not exceed the mask length and the sum is representable these
  are the plain difference and sum. The hypotheses say that the call gets that far: the
  mask and the embeddings have rank two or more and the tokenized history fits the prompt
  buffer.
\<close>

theorem history_size_from_current_mask:
  assumes rank: "1 < length (shape (t_attention_mask (m_language pl)))"
    and embeds: "get_inputs_embeds fenv (m_inputs_embedder pl) prompt = (embedder, embeds)"
    and erank: "1 < length (shape embeds)"
    and remove: "to_remove = get_num_tokens_to_remove_from_hist fenv embedder"
    and len: "mask_length = shape (t_attention_mask (m_language pl)) ! 1"
    and fits: "length (get_tokenized_history fenv embedder)
                 \<le> size_t (size_t_sub mask_length to_remove + shape embeds ! 1)"
  shows "\<exists>t. prepare_turn fenv pl prompt config = Inr t \<and>
             history_size t = size_t_sub mask_length to_remove \<and>
             inputs_embeds_size t = shape embeds ! 1 \<and>
             new_atten_mask t = \<lparr>shape = [1, size_t (history_size t + inputs_embeds_size t)],
                                  data = replicate (size_t (history_size t + inputs_embeds_size t)) 1\<rparr> \<and>
             (\<forall>batch_size.
                t_attention_mask (bind_prompt_inputs (turn_language t) (Embeddings (inputs_embeds t))
                                    (new_atten_mask t) (Some (turn_position_ids t)) True batch_size)
                  = new_atten_mask t) \<and>
             (to_remove \<le> mask_length \<and> mask_length < 2 ^ 64 \<and>
              mask_length - to_remove + shape embeds ! 1 < 2 ^ 64 \<longrightarrow>
                history_size t = mask_length - to_remove \<and>
                shape (new_atten_mask t) = [1, history_size t + inputs_embeds_size t] \<and>
                length (data (new_atten_mask t)) = history_size t + inputs_embeds_size t \<and>
                set (data (new_atten_mask t)) \<subseteq> {1})"
proof -
  let ?language = "trim_kv_cache fenv (m_language pl) to_remove"
  let ?history = "size_t_sub mask_length to_remove"
  let ?total = "size_t (?history + shape embeds ! 1)"
  let ?t = "\<lparr>turn_embedder = embedder, turn_language = ?language, to_remove_from_hist = to_remove,
             history_size = ?history, inputs_embeds_size = shape embeds ! 1, inputs_embeds = embeds,
             sequence_group = new_sequence_group fenv 0
               (get_tokenized_history fenv embedder
                @ replicate (?total - length (get_tokenized_history fenv embedder)) (pad_token_id fenv)) config,
             new_atten_mask = \<lparr>shape = [1, ?total], data = replicate ?total 1\<rparr>,
             turn_position_ids = \<lparr>shape = [1, shape embeds ! 1],
               data = map (\<lambda>i. word_of_nat ?history + word_of_nat i) [0..<shape embeds ! 1]\<rparr>\<rparr>"
  have ml: "shape (t_attention_mask (m_language pl)) ! Suc 0 = mask_length"
    using len by simp
  have p: "prepare_turn fenv pl prompt config = Inr ?t"
    using rank erank fits
    by (simp add: prepare_turn_def embeds remove [symmetric] ml Let_def at_def and_then_Inr
        trim_kv_cache_mask fill_prompt_ids_def)
  have nowrap: "?history = mask_length - to_remove \<and> ?total = mask_length - to_remove + shape embeds ! 1"
    if "to_remove \<le> mask_length" "mask_length < 2 ^ 64"
       "mask_length - to_remove + shape embeds ! 1 < 2 ^ 64"
    using that by (simp add: size_t_sub_le size_t_id)
  show ?thesis
    using p nowrap
    by (intro exI [of _ ?t]) (auto simp add: bind_prompt_inputs_def)
qed


text \<open>Witness for C6: a mask of four columns, three new embeddings, nothing to remove.\<close>

theorem history_size_from_current_mask_witness:
  "\<exists>t. prepare_turn example_facade
          \<lparr>m_language = example_engine\<lparr>t_attention_mask := \<lparr>shape = [1, 4], data = [1, 1, 1, 1]\<rparr>\<rparr>,
           m_sampler = example_sampler, m_inputs_embedder = [5, 6, 7, 8]\<rparr> ()
          \<lparr>num_return_sequences = 1, is_beam_search = False\<rparr> = Inr t \<and>
       history_size t = 4 \<and> inputs_embeds_size t = 3 \<and>
       new_atten_mask t = \<lparr>shape = [1, 7], data = [1, 1, 1, 1, 1, 1, 1]\<rparr>"
proof -
  let ?pl = "\<lparr>m_language = example_engine\<lparr>t_attention_mask := \<lparr>shape = [1, 4], data = [1, 1, 1, 1]\<rparr>\<rparr>,
             m_sampler = example_sampler, m_inputs_embedder = [5, 6, 7, 8 :: int64]\<rparr>"
  let ?embeds = "\<lparr>shape = [1, 3, 1], data = [(), (), ()]\<rparr>"
  have rank: "1 < length (shape (t_attention_mask (m_language ?pl)))" by simp
  have embeds: "get_inputs_embeds example_facade (m_inputs_embedder ?pl) () = ([5, 6, 7, 8], ?embeds)"
    by (simp add: example_facade_def)
  have erank: "1 < length (shape ?embeds)" by simp
  have remove: "0 = get_num_tokens_to_remove_from_hist example_facade [5, 6, 7, 8]"
    by (simp add: example_facade_def)
  have len: "4 = shape (t_attention_mask (m_language ?pl)) ! 1" by simp
  have fits: "length (get_tokenized_history example_facade [5, 6, 7, 8])
                \<le> size_t (size_t_sub 4 0 + shape ?embeds ! 1)"
    by (simp add: example_facade_def size_t_def size_t_sub_def)
  from history_size_from_current_mask [OF rank embeds erank remove len fits,
      of "\<lparr>num_return_sequences = 1, is_beam_search = False\<rparr>"]
  obtain t where t: "prepare_turn example_facade ?pl () \<lparr>num_return_sequences = 1, is_beam_search = False\<rparr> = Inr t"
    "history_size t = size_t_sub 4 0" "inputs_embeds_size t = shape ?embeds ! 1"
    "new_atten_mask t = \<lparr>shape = [1, size_t (history_size t + inputs_embeds_size t)],
                         data = replicate (size_t (history_size t + inputs_embeds_size t)) 1\<rparr>"
    by blast
  have h: "history_size t = 4" "inputs_embeds_size t = 3"
    using t(2,3) by (simp_all add: size_t_sub_def size_t_def)
  have seven: "size_t (4 + 3) = 7" by (simp add: size_t_def)
  have ones: "replicate 7 (1 :: int64) = [1, 1, 1, 1, 1, 1, 1]"
    by (simp add: numeral_eq_Suc)
  have "new_atten_mask t = \<lparr>shape = [1, 7], data = [1, 1, 1, 1, 1, 1, 1]\<rparr>"
    by (simp only: t(4) h seven ones)
  then show ?thesis using t(1) h by blast
qed

lemma generate_Inr:
  assumes "generate fuel env fenv pl prompt config = Some (Inr (decoded, pl'))"
  shows "\<exists>request. m_language pl'
           = (reset_state fenv request)\<lparr>t_attention_mask := set_shape (uninitialised env) [1, 0]\<rparr>"
proof (cases "prepare_turn fenv pl prompt config")
  case (Inl e)
  then show ?thesis using assms by (simp add: generate_def)
next
  case t: (Inr t)
  show ?thesis
  proof (cases "get_lm_encoded_results fuel env (turn_language t) (Embeddings (inputs_embeds t))
                  (new_atten_mask t) (m_sampler pl) (\<lambda>_. sequence_group t) [0]
                  (Some (turn_position_ids t)) (Some (embedding_model fenv))")
    case None
    then show ?thesis using assms t by (simp add: generate_def)
  next
    case (Some r)
    show ?thesis
    proof (cases r)
      case (Inl e)
      then show ?thesis using assms t Some by (simp add: generate_def)
    next
      case (Inr v)
      obtain encoded_result hint st where v: "v = ((encoded_result, hint), st)"
        by (cases v) auto
      let ?language = "(reset_state fenv (m_llm st))\<lparr>t_attention_mask := set_shape (uninitialised env) [1, 0]\<rparr>"
      have run: "and_then (subscript (tokens encoded_result) 0) (\<lambda>best.
                 and_then (subscript (shape (t_attention_mask (m_llm st))) 1) (\<lambda>mask_length.
                   Inr ((map (decode fenv) (tokens encoded_result), scores encoded_result),
                        \<lparr>m_language = ?language, m_sampler = sampler st,
                         m_inputs_embedder = update_tokenized_history fenv (turn_embedder t) best hint
                            (is_beam_search config)
                            (size_t_sub mask_length (size_t (history_size t + inputs_embeds_size t)))\<rparr>)))
                 = Inr (decoded, pl')"
        using assms t Some Inr v by (simp add: generate_def Let_def)
      then obtain best where best: "subscript (tokens encoded_result) 0 = Inr best"
        by (cases "subscript (tokens encoded_result) 0") (simp_all add: and_then_Inl)
      with run obtain mask_length where
        ml: "subscript (shape (t_attention_mask (m_llm st))) 1 = Inr mask_length"
        by (cases "subscript (shape (t_attention_mask (m_llm st))) 1")
           (simp_all add: and_then_Inl and_then_Inr)
      have "Inr ((map (decode fenv) (tokens encoded_result), scores encoded_result),
                 \<lparr>m_language = ?language, m_sampler = sampler st,
                  m_inputs_embedder = update_tokenized_history fenv (turn_embedder t) best hint
                     (is_beam_search config)
                     (size_t_sub mask_length (size_t (history_size t + inputs_embeds_size t)))\<rparr>)
            = (Inr (decoded, pl') :: failure + _)"
        using run by (simp only: best ml and_then_Inr)
      then have "m_language pl' = ?language"
        by auto
      then show ?thesis by blast
    qed
  qed
qed

text \<open>
  Claim C10. After every completed call of \<^verbatim>\<open>generate\<close> the internal state of the language
  model is the cleared one and its attention mask has shape \<open>(1, 0)\<close>, the shape the
  constructors give it. Hence the next call computes \<open>history_size\<close> from a mask of length
  zero, and when it has nothing to remove from the history it starts from history size 0
  and the cleared cache.
\<close>

theorem generate_resets_engine:
  assumes "generate fuel env fenv pl prompt config = Some (Inr (decoded, pl'))"
  shows "t_attention_mask (m_language pl') = \<lparr>shape = [1, 0], data = []\<rparr> \<and>
         kv_state (m_language pl') = empty_kv fenv \<and>
         t_attention_mask (m_language (construct_pipeline mem request sampler_new embedder))
           = \<lparr>shape = [1, 0], data = []\<rparr> \<and>
         (\<forall>next_prompt next_config t.
            prepare_turn fenv pl' next_prompt next_config = Inr t \<longrightarrow>
              history_size t = size_t_sub 0 (to_remove_from_hist t) \<and>
              (to_remove_from_hist t = 0 \<longrightarrow>
                 history_size t = 0 \<and> kv_state (turn_language t) = empty_kv fenv))"
proof -
  from generate_Inr [OF assms] obtain last_request where
    l: "m_language pl' = (reset_state fenv last_request)\<lparr>t_attention_mask := set_shape (uninitialised env) [1, 0]\<rparr>"
    by blast
  have mask: "t_attention_mask (m_language pl') = \<lparr>shape = [1, 0], data = []\<rparr>"
    by (simp add: l set_shape_def)
  have kv: "kv_state (m_language pl') = empty_kv fenv"
    by (simp add: l reset_state_def)
  have next_turn: "history_size t = size_t_sub 0 (to_remove_from_hist t) \<and>
          (to_remove_from_hist t = 0 \<longrightarrow>
             history_size t = 0 \<and> kv_state (turn_language t) = empty_kv fenv)"
    if "prepare_turn fenv pl' next_prompt next_config = Inr t" for next_prompt next_config t
    using prepare_turn_Inr [OF that] mask kv
    by (auto simp add: trim_kv_cache_def size_t_sub_def size_t_def)
  have c: "t_attention_mask (m_language (construct_pipeline mem request sampler_new embedder))
           = \<lparr>shape = [1, 0], data = []\<rparr>"
    by (simp add: construct_pipeline_def set_shape_def)
  from next_turn have nt: "\<forall>next_prompt next_config t.
            prepare_turn fenv pl' next_prompt next_config = Inr t \<longrightarrow>
              history_size t = size_t_sub 0 (to_remove_from_hist t) \<and>
              (to_remove_from_hist t = 0 \<longrightarrow>
                 history_size t = 0 \<and> kv_state (turn_language t) = empty_kv fenv)"
    by blast
  show ?thesis
  proof (intro conjI)
    show "t_attention_mask (m_language pl') = \<lparr>shape = [1, 0], data = []\<rparr>"
      by (rule mask)
    show "kv_state (m_language pl') = empty_kv fenv"
      by (rule kv)
    show "t_attention_mask (m_language (construct_pipeline mem request sampler_new embedder))
            = \<lparr>shape = [1, 0], data = []\<rparr>"
      by (rule c)
    show "\<forall>next_prompt next_config t.
            prepare_turn fenv pl' next_prompt next_config = Inr t \<longrightarrow>
              history_size t = size_t_sub 0 (to_remove_from_hist t) \<and>
              (to_remove_from_hist t = 0 \<longrightarrow>
                 history_size t = 0 \<and> kv_state (turn_language t) = empty_kv fenv)"
      by (rule nt)
  qed
qed



text \<open>Witness for C10: one call of \<^verbatim>\<open>generate\<close> on a freshly constructed pipeline with the
  example collaborators.\<close>

theorem generate_resets_engine_witness:
  "\<exists>decoded pl'.
     generate (Suc 0) (example_env 1) example_facade
       (construct_pipeline (\<lambda>_. 0) example_engine example_sampler [])
       () \<lparr>num_return_sequences = 1, is_beam_search = False\<rparr> = Some (Inr (decoded, pl')) \<and>
     t_attention_mask (m_language pl') = \<lparr>shape = [1, 0], data = []\<rparr> \<and>
     kv_state (m_language pl') = 0 \<and> m_inputs_embedder pl' = [40]"
proof -
  have "\<exists>decoded pl'.
     generate (Suc 0) (example_env 1) example_facade
       (construct_pipeline (\<lambda>_. 0) example_engine example_sampler [])
       () \<lparr>num_return_sequences = 1, is_beam_search = False\<rparr> = Some (Inr (decoded, pl')) \<and>
     m_inputs_embedder pl' = [40]"
    by (simp add: facade_defs example_defs orchestrator_defs updater_defs and_then_def Let_def upt_rec)
  then obtain decoded pl' where
    g: "generate (Suc 0) (example_env 1) example_facade
          (construct_pipeline (\<lambda>_. 0) example_engine example_sampler [])
          () \<lparr>num_return_sequences = 1, is_beam_search = False\<rparr> = Some (Inr (decoded, pl'))"
       "m_inputs_embedder pl' = [40]"
    by blast
  note r = generate_resets_engine [OF g(1), where mem = "\<lambda>_. 0" and request = example_engine
      and sampler_new = example_sampler and embedder = "[] :: int64 list"]
  have "t_attention_mask (m_language pl') = \<lparr>shape = [1, 0], data = []\<rparr>"
    "kv_state (m_language pl') = empty_kv example_facade"
    using r by (rule conjunct1, rule conjunct2 [THEN conjunct1])
  then show ?thesis using g by (auto simp add: example_facade_def)
qed

section \<open>The token-id tensor of a generation step\<close>

lemma token_at_spec:
  assumes "position < length (prompt_ids g) + length (generated_ids sequence)"
  shows "token_at g sequence position = Inr (spec_token g sequence position)"
  using assms by (auto simp add: token_at_def spec_token_def subscript_def get_prompt_len_def)

lemma write_tokens_prefix:
  assumes fit: "input_ids_data + n \<le> length buffer"
    and avail: "position + n \<le> length (prompt_ids g) + length (generated_ids sequence)"
    and k: "k \<le> n"
  shows "fold (\<lambda>token_id acc. and_then acc (\<lambda>buf.
                 and_then (token_at g sequence (position + token_id))
                   (\<lambda>v. store buf (input_ids_data + token_id) v)))
           [0..<k] (Inr buffer)
         = Inr (take input_ids_data buffer
                @ map (\<lambda>token_id. spec_token g sequence (position + token_id)) [0..<k]
                @ drop (input_ids_data + k) buffer)"
  using k
proof (induction k)
  case 0
  show ?case by simp
next
  case (Suc k)
  let ?row = "map (\<lambda>token_id. spec_token g sequence (position + token_id)) [0..<k]"
  let ?buf = "take input_ids_data buffer @ ?row @ drop (input_ids_data + k) buffer"
  have inb: "input_ids_data + k < length buffer" using Suc.prems fit by simp
  have rl: "length ?row = k" by simp
  have tok: "token_at g sequence (position + k) = Inr (spec_token g sequence (position + k))"
    using Suc.prems avail by (intro token_at_spec) simp
  have st: "store ?buf (input_ids_data + k) (spec_token g sequence (position + k))
            = Inr (take input_ids_data buffer
                   @ (?row @ [spec_token g sequence (position + k)])
                   @ drop (input_ids_data + k + 1) buffer)"
    using inb store_after_copy [OF inb rl, of "spec_token g sequence (position + k)"]
    by (simp add: store_def)
  have "fold (\<lambda>token_id acc. and_then acc (\<lambda>buf.
                 and_then (token_at g sequence (position + token_id))
                   (\<lambda>v. store buf (input_ids_data + token_id) v)))
           [0..<Suc k] (Inr buffer)
        = and_then (token_at g sequence (position + k)) (\<lambda>v. store ?buf (input_ids_data + k) v)"
    using Suc by (simp add: and_then_Inr)
  also have "\<dots> = store ?buf (input_ids_data + k) (spec_token g sequence (position + k))"
    by (simp only: tok and_then_Inr)
  finally show ?case by (simp only: st) simp
qed

lemma write_tokens_spec:
  assumes "input_ids_data + num_scheduled_tokens g \<le> length buffer"
    and "num_processed_tokens g + num_scheduled_tokens g
           \<le> length (prompt_ids g) + length (generated_ids sequence)"
  shows "write_tokens g sequence (num_scheduled_tokens g) (num_processed_tokens g) input_ids_data buffer
         = Inr (take input_ids_data buffer @ spec_sequence_rows g sequence
                @ drop (input_ids_data + num_scheduled_tokens g) buffer)"
  unfolding write_tokens_def spec_sequence_rows_def
  by (rule write_tokens_prefix [OF assms order_refl])

lemma chunk_written:
  assumes "off + w \<le> length buffer" "length c = w"
  shows "take (off + w) (take off buffer @ c @ drop (off + w) buffer) = take off buffer @ c"
    and "drop (off + w + k) (take off buffer @ c @ drop (off + w) buffer) = drop (off + w + k) buffer"
    and "length (take off buffer @ c @ drop (off + w) buffer) = length buffer"
  using assms by (simp_all add: add.commute)

lemma fold_chunks:
  assumes step: "\<And>x buffer off beams. x \<in> set xs \<Longrightarrow> off + w x \<le> length buffer \<Longrightarrow>
                   F x (buffer, off, beams)
                   = Inr (take off buffer @ chunk x @ drop (off + w x) buffer, off + w x, beams @ b x)"
    and len: "\<And>x. x \<in> set xs \<Longrightarrow> length (chunk x) = w x"
    and fit: "off + sum_list (map w xs) \<le> length buffer"
  shows "fold (\<lambda>x acc. and_then acc (F x)) xs (Inr (buffer, off, beams))
         = Inr (take off buffer @ concat (map chunk xs) @ drop (off + sum_list (map w xs)) buffer,
                off + sum_list (map w xs), beams @ concat (map b xs))"
  using assms
proof (induction xs arbitrary: buffer off beams)
  case Nil
  then show ?case by simp
next
  case (Cons x xs)
  let ?buf = "take off buffer @ chunk x @ drop (off + w x) buffer"
  have fx: "off + w x \<le> length buffer" using Cons.prems(3) by simp
  have lx: "length (chunk x) = w x" using Cons.prems(2) by simp
  have first: "F x (buffer, off, beams) = Inr (?buf, off + w x, beams @ b x)"
    by (rule Cons.prems(1)) (use fx in simp_all)
  have fit': "(off + w x) + sum_list (map w xs) \<le> length ?buf"
    using Cons.prems(3) chunk_written(3) [OF fx lx] by simp
  have rest: "fold (\<lambda>x acc. and_then acc (F x)) xs (Inr (?buf, off + w x, beams @ b x))
        = Inr (take (off + w x) ?buf @ concat (map chunk xs)
                 @ drop ((off + w x) + sum_list (map w xs)) ?buf,
               (off + w x) + sum_list (map w xs), (beams @ b x) @ concat (map b xs))"
    using Cons.prems(1,2) fit' by (intro Cons.IH) simp_all
  have "fold (\<lambda>x acc. and_then acc (F x)) (x # xs) (Inr (buffer, off, beams))
        = fold (\<lambda>x acc. and_then acc (F x)) xs (Inr (?buf, off + w x, beams @ b x))"
    by (simp add: and_then_Inr first)
  also note rest
  finally show ?case
    by (simp only: chunk_written(1) [OF fx lx] chunk_written(2) [OF fx lx]) (simp add: add.assoc)
qed

lemma fill_sequence_spec:
  assumes "seq_id < length (running_sequences g)"
    and "num_processed_tokens g + num_scheduled_tokens g
           \<le> length (prompt_ids g) + length (generated_ids (running_sequences g ! seq_id))"
    and "offsets (request_id g) = Some offset"
    and "off + num_scheduled_tokens g \<le> length buffer"
  shows "fill_sequence beam_idxs offsets g seq_id (buffer, off, beams)
         = Inr (take off buffer @ spec_sequence_rows g (running_sequences g ! seq_id)
                  @ drop (off + num_scheduled_tokens g) buffer,
                off + num_scheduled_tokens g,
                beams @ [beam_index (fst (map_subscript beam_idxs
                                            (sequence_id (running_sequences g ! seq_id)))) offset])"
  using assms
  by (simp add: fill_sequence_def subscript_def and_then_Inr write_tokens_spec map_at_def)

lemma length_spec_sequence_rows: "length (spec_sequence_rows g sequence) = num_scheduled_tokens g"
  by (simp add: spec_sequence_rows_def)

lemma length_spec_group_rows:
  "length (spec_group_rows g) = length (running_sequences g) * num_scheduled_tokens g"
  by (simp add: spec_group_rows_def length_concat comp_def length_spec_sequence_rows sum_list_triv)

lemma map_nth_fun: "map (\<lambda>i. f (xs ! i)) [0..<length xs] = map f xs"
proof -
  have "map (\<lambda>i. f (xs ! i)) [0..<length xs] = map f (map (\<lambda>i. xs ! i) [0..<length xs])"
    by simp
  then show ?thesis by (simp only: map_nth)
qed

lemma fill_group_spec:
  assumes avail: "\<forall>sequence \<in> set (running_sequences g).
                    num_processed_tokens g + num_scheduled_tokens g
                      \<le> length (prompt_ids g) + length (generated_ids sequence)"
    and key: "offsets (request_id g) = Some offset"
    and fit: "off + length (running_sequences g) * num_scheduled_tokens g \<le> length buffer"
  shows "fill_group env sampler_in offsets g (buffer, off, beams)
         = Inr (take off buffer @ spec_group_rows g
                  @ drop (off + length (running_sequences g) * num_scheduled_tokens g) buffer,
                off + length (running_sequences g) * num_scheduled_tokens g,
                beams @ map (\<lambda>sequence. beam_index (fst (map_subscript (get_beam_idxs env sampler_in g)
                                                            (sequence_id sequence))) offset)
                          (running_sequences g))"
proof -
  let ?bi = "get_beam_idxs env sampler_in g"
  let ?ids = "[0..<length (running_sequences g)]"
  let ?w = "\<lambda>seq_id :: nat. num_scheduled_tokens g"
  let ?chunk = "\<lambda>seq_id. spec_sequence_rows g (running_sequences g ! seq_id)"
  let ?b = "\<lambda>seq_id. [beam_index (fst (map_subscript ?bi (sequence_id (running_sequences g ! seq_id)))) offset]"
  have step: "fill_sequence ?bi offsets g seq_id (buffer', off', beams')
              = Inr (take off' buffer' @ ?chunk seq_id @ drop (off' + ?w seq_id) buffer',
                     off' + ?w seq_id, beams' @ ?b seq_id)"
    if "seq_id \<in> set ?ids" "off' + ?w seq_id \<le> length buffer'" for seq_id buffer' off' beams'
    using that avail key by (intro fill_sequence_spec) simp_all
  have len: "length (?chunk seq_id) = ?w seq_id" if "seq_id \<in> set ?ids" for seq_id
    by (simp add: length_spec_sequence_rows)
  have total: "sum_list (map ?w ?ids) = length (running_sequences g) * num_scheduled_tokens g"
    by (simp add: sum_list_triv)
  have fit': "off + sum_list (map ?w ?ids) \<le> length buffer"
    using fit by (simp only: total)
  have rows: "concat (map ?chunk ?ids) = spec_group_rows g"
    by (simp only: spec_group_rows_def map_nth_fun [of "spec_sequence_rows g"])
  have bs: "concat (map ?b ?ids)
            = map (\<lambda>sequence. beam_index (fst (map_subscript ?bi (sequence_id sequence))) offset)
                (running_sequences g)"
  proof -
    have "concat (map ?b ?ids) = map (\<lambda>seq_id. beam_index (fst (map_subscript ?bi
              (sequence_id (running_sequences g ! seq_id)))) offset) ?ids"
      by (induction "length (running_sequences g)") (simp_all add: concat_map_singleton)
    then show ?thesis
      by (simp only: map_nth_fun [of "\<lambda>sequence. beam_index (fst (map_subscript ?bi (sequence_id sequence))) offset"])
  qed
  have "fill_group env sampler_in offsets g (buffer, off, beams)
        = fold (\<lambda>seq_id acc. and_then acc (fill_sequence ?bi offsets g seq_id)) ?ids
            (Inr (buffer, off, beams))"
    by (simp add: fill_group_def)
  also have "\<dots> = Inr (take off buffer @ concat (map ?chunk ?ids)
                          @ drop (off + sum_list (map ?w ?ids)) buffer,
                        off + sum_list (map ?w ?ids), beams @ concat (map ?b ?ids))"
    by (rule fold_chunks [where w = ?w and chunk = ?chunk and b = ?b, OF step len fit'])
  finally show ?thesis by (simp only: total rows bs)
qed

lemma build_step_inputs_spec:
  assumes avail: "\<forall>p \<in> set active. \<forall>sequence \<in> set (running_sequences (store_of p)).
                    num_processed_tokens (store_of p) + num_scheduled_tokens (store_of p)
                      \<le> length (prompt_ids (store_of p)) + length (generated_ids sequence)"
    and keys: "\<forall>p \<in> set active. offsets (request_id (store_of p)) \<noteq> None"
    and total: "total_num_tokens
                  = sum_list (map (\<lambda>p. length (running_sequences (store_of p))
                                          * num_scheduled_tokens (store_of p)) active)"
  shows "build_step_inputs env sampler_in offsets store_of active total_num_tokens
         = Inr (\<lparr>shape = [total_num_tokens, 1],
                  data = concat (map (\<lambda>p. spec_group_rows (store_of p)) active)\<rparr>,
                concat (map (\<lambda>p. map (\<lambda>sequence.
                                      beam_index (fst (map_subscript (get_beam_idxs env sampler_in (store_of p))
                                                         (sequence_id sequence)))
                                        (the (offsets (request_id (store_of p)))))
                                    (running_sequences (store_of p))) active))"
proof -
  let ?buffer = "map (uninitialised env) [0..<total_num_tokens]"
  let ?w = "\<lambda>p. length (running_sequences (store_of p)) * num_scheduled_tokens (store_of p)"
  let ?chunk = "\<lambda>p. spec_group_rows (store_of p)"
  let ?b = "\<lambda>p. map (\<lambda>sequence. beam_index (fst (map_subscript (get_beam_idxs env sampler_in (store_of p))
                                                     (sequence_id sequence)))
                                   (the (offsets (request_id (store_of p)))))
               (running_sequences (store_of p))"
  have step: "fill_group env sampler_in offsets (store_of p) (buffer', off', beams')
              = Inr (take off' buffer' @ ?chunk p @ drop (off' + ?w p) buffer', off' + ?w p, beams' @ ?b p)"
    if "p \<in> set active" "off' + ?w p \<le> length buffer'" for p buffer' off' beams'
  proof -
    from keys that(1) obtain offset where o: "offsets (request_id (store_of p)) = Some offset"
      by auto
    have a: "\<forall>sequence \<in> set (running_sequences (store_of p)).
               num_processed_tokens (store_of p) + num_scheduled_tokens (store_of p)
                 \<le> length (prompt_ids (store_of p)) + length (generated_ids sequence)"
      using avail that(1) by blast
    show ?thesis
      using fill_group_spec [where g = "store_of p" and offsets = offsets and offset = offset
          and off = off' and buffer = buffer' and env = env and sampler_in = sampler_in
          and beams = beams', OF a o that(2)]
      by (simp add: o)
  qed
  have len: "length (?chunk p) = ?w p" if "p \<in> set active" for p
    by (rule length_spec_group_rows)
  have fit: "0 + sum_list (map ?w active) \<le> length ?buffer"
    using total by simp
  have run: "fold (\<lambda>p acc. and_then acc (fill_group env sampler_in offsets (store_of p))) active
               (Inr (?buffer, 0, []))
             = Inr (take 0 ?buffer @ concat (map ?chunk active)
                      @ drop (0 + sum_list (map ?w active)) ?buffer,
                    0 + sum_list (map ?w active), [] @ concat (map ?b active))"
    by (rule fold_chunks [where w = ?w and chunk = ?chunk and b = ?b, OF step len fit])
  have tail: "drop (0 + sum_list (map ?w active)) ?buffer = []"
    unfolding total by simp
  have run': "fold (\<lambda>p acc. and_then acc (fill_group env sampler_in offsets (store_of p))) active
               (Inr (?buffer, 0, []))
             = Inr (concat (map ?chunk active), total_num_tokens, concat (map ?b active))"
    unfolding run tail unfolding total by simp
  have "build_step_inputs env sampler_in offsets store_of active total_num_tokens
        = and_then (fold (\<lambda>p acc. and_then acc (fill_group env sampler_in offsets (store_of p))) active
                      (Inr (?buffer, 0, [])))
            (\<lambda>(buffer, input_ids_data, beams).
               Inr (\<lparr>shape = [total_num_tokens, 1], data = buffer\<rparr>, beams))"
    by (simp add: build_step_inputs_def Let_def set_shape_def)
  also have "\<dots> = Inr (\<lparr>shape = [total_num_tokens, 1], data = concat (map ?chunk active)\<rparr>,
                        concat (map ?b active))"
    by (simp only: run' and_then_Inr) simp
  finally show ?thesis .
qed

lemma schedule_step_fold:
  "fold (\<lambda>p (h, total_num_tokens).
           let h' = h(p := schedule_tokens 1 (h p));
               num_sequences = num_running_seqs (h' p)
           in (h', total_num_tokens + num_scheduled_tokens (h' p) * num_sequences))
     active (store_of, count)
   = ((\<lambda>p. if p \<in> set active then schedule_tokens 1 (store_of p) else store_of p),
      count + sum_list (map (\<lambda>p. num_running_seqs (store_of p)) active))"
proof (induction active arbitrary: store_of count)
  case Nil
  show ?case by simp
next
  case (Cons p ps)
  let ?h = "store_of(p := schedule_tokens 1 (store_of p))"
  have running: "num_running_seqs (?h q) = num_running_seqs (store_of q)" for q
    by (simp add: num_running_seqs_def schedule_tokens_def)
  have again: "schedule_tokens 1 (?h q) = schedule_tokens 1 (store_of q)" for q
    by (simp add: schedule_tokens_def)
  have stores: "(\<lambda>q. if q \<in> set ps then schedule_tokens 1 (?h q) else ?h q)
                = (\<lambda>q. if q \<in> set (p # ps) then schedule_tokens 1 (store_of q) else store_of q)"
    by (rule ext) (simp add: schedule_tokens_def)
  let ?F = "\<lambda>p (h, total_num_tokens).
              let h' = h(p := schedule_tokens 1 (h p));
                  num_sequences = num_running_seqs (h' p)
              in (h', total_num_tokens + num_scheduled_tokens (h' p) * num_sequences)"
  have one: "num_scheduled_tokens (?h p) * num_running_seqs (?h p) = num_running_seqs (store_of p)"
    by (simp add: schedule_tokens_def num_running_seqs_def)
  have "fold ?F (p # ps) (store_of, count)
        = fold ?F ps (?h, count + num_scheduled_tokens (?h p) * num_running_seqs (?h p))"
    by (simp add: Let_def)
  also have "\<dots> = ((\<lambda>q. if q \<in> set ps then schedule_tokens 1 (?h q) else ?h q),
                      (count + num_scheduled_tokens (?h p) * num_running_seqs (?h p))
                      + sum_list (map (\<lambda>q. num_running_seqs (?h q)) ps))"
    by (rule Cons.IH)
  also have "\<dots> = ((\<lambda>q. if q \<in> set (p # ps) then schedule_tokens 1 (store_of q) else store_of q),
                      count + sum_list (map (\<lambda>q. num_running_seqs (store_of q)) (p # ps)))"
    by (simp only: stores one running) (simp add: schedule_tokens_def)
  finally show ?case .
qed

lemma schedule_step_eq:
  "schedule_step store_of active
   = ((\<lambda>p. if p \<in> set active then schedule_tokens 1 (store_of p) else store_of p),
      sum_list (map (\<lambda>p. num_running_seqs (store_of p)) active))"
  unfolding schedule_step_def using schedule_step_fold [of active store_of 0] by simp

lemma size_t_sub_self: "size_t_sub a a = 0"
proof -
  have "size_t a < 2 ^ 64" by (simp add: size_t_def)
  then have "size_t a + 2 ^ 64 - size_t a = 2 ^ 64" by simp
  then show ?thesis by (simp add: size_t_sub_def)
qed

lemma schedule_prompt_eq:
  "schedule_prompt sequence_len sequence_groups store_of
   = (\<lambda>p. if p \<in> set sequence_groups
           then (store_of p)\<lparr>num_processed_tokens := size_t_sub (length (prompt_ids (store_of p))) sequence_len,
                              num_scheduled_tokens := sequence_len\<rparr>
           else store_of p)"
  unfolding schedule_prompt_def
proof (induction sequence_groups arbitrary: store_of)
  case Nil
  show ?case by simp
next
  case (Cons p ps)
  show ?case
    by (simp only: fold_simps Cons.IH)
       (rule ext, simp add: schedule_tokens_def update_processed_tokens_num_def get_prompt_len_def)
qed

lemma prompt_phase_Inr:
  assumes "prompt_phase env engine input_ids attention_mask sampler_in store_of sequence_groups
             position_ids m_embedding = Inr st"
  shows "groups st = snd (sample env sampler_in
                            (schedule_prompt (shape (t_logits (m_llm st)) ! 1) sequence_groups store_of)
                            sequence_groups (t_logits (m_llm st))) \<and>
         active_sequence_groups st = sequence_groups"
  using assms
  by (auto simp add: prompt_phase_def subscript_def at_def and_then_def Let_def case_prod_beta
      split: if_splits)

lemma generation_step_Inr:
  assumes "generation_step env m_embedding has_position_ids st = Inr st'"
  shows "groups st' = snd (sample env (sampler st)
                             (fst (schedule_step (groups st) (active_sequence_groups st)))
                             (active_sequence_groups st) (t_logits (m_llm st')))"
proof -
  obtain scheduled total_num_tokens where
    s: "schedule_step (groups st) (active_sequence_groups st) = (scheduled, total_num_tokens)"
    by (cases "schedule_step (groups st) (active_sequence_groups st)") auto
  show ?thesis
    using assms
    unfolding generation_step_def Let_def s
    by (auto simp add: and_then_def case_prod_beta split: sum.splits option.splits if_splits)
qed

lemma fold_update_funpow:
  "fold (\<lambda>p h. h(p := f (h p))) ps h q = (f ^^ count_list ps q) (h q)"
proof (induction ps arbitrary: h)
  case Nil
  show ?case by simp
next
  case (Cons x xs)
  have "fold (\<lambda>p h. h(p := f (h p))) (x # xs) h q
        = fold (\<lambda>p h. h(p := f (h p))) xs (h(x := f (h x))) q"
    by simp
  also have "\<dots> = (f ^^ count_list xs q) ((h(x := f (h x))) q)"
    by (rule Cons.IH)
  also have "\<dots> = (f ^^ count_list (x # xs) q) (h q)"
    by (simp add: funpow_swap1)
  finally show ?case .
qed

lemma example_sample_group_counters:
  "num_processed_tokens (example_sample_group limit g) = num_processed_tokens g + num_scheduled_tokens g"
  "num_scheduled_tokens (example_sample_group limit g) = 0"
  "prompt_ids (example_sample_group limit g) = prompt_ids g"
  by (simp_all add: example_sample_group_def Let_def)

lemma example_sample_group_funpow:
  "num_processed_tokens ((example_sample_group limit ^^ Suc n) g)
     = num_processed_tokens g + num_scheduled_tokens g \<and>
   num_scheduled_tokens ((example_sample_group limit ^^ Suc n) g) = 0 \<and>
   prompt_ids ((example_sample_group limit ^^ Suc n) g) = prompt_ids g"
  by (induction n) (simp_all add: example_sample_group_counters)

lemma example_finishes_iteration: "finishes_iteration (example_env limit)"
  unfolding finishes_iteration_def
proof (intro allI impI)
  fix s :: "(unit, unit) sampler_state" and h :: "int group_store"
    and ps :: "nat list" and lg :: "unit tensor" and p :: nat
  assume "p \<in> set ps"
  then obtain n where n: "count_list ps p = Suc n"
    by (cases "count_list ps p") (simp_all add: count_list_0_iff)
  have "snd (sample (example_env limit) s h ps lg) p = (example_sample_group limit ^^ Suc n) (h p)"
    by (simp add: example_env_def example_sample_def fold_update_funpow n del: funpow.simps)
  then show "num_processed_tokens (snd (sample (example_env limit) s h ps lg) p)
               = num_processed_tokens (h p) + num_scheduled_tokens (h p) \<and>
             prompt_ids (snd (sample (example_env limit) s h ps lg) p) = prompt_ids (h p)"
    using example_sample_group_funpow [where limit = limit and n = n and g = "h p"] by simp
qed

lemma spec_group_rows_generated:
  assumes "length (prompt_ids g) \<le> num_processed_tokens g"
  shows "spec_group_rows g
         = concat (map (\<lambda>sequence.
                          map (\<lambda>token_id. generated_ids sequence
                                             ! (num_processed_tokens g + token_id - length (prompt_ids g)))
                            [0..<num_scheduled_tokens g])
                     (running_sequences g))"
  using assms
  by (auto simp add: spec_group_rows_def spec_sequence_rows_def spec_token_def
      intro!: arg_cong [where f = concat])

text \<open>
  Claim C4. At a generation step with store \<open>store_of\<close> and active list \<open>active\<close>, where
  every running hypothesis of every active group has a token for the position to be fed
  and every active group has a row offset: one token is scheduled per group, the token-id
  tensor has shape \<open>(total, 1)\<close> with \<open>total\<close> the sum over the active groups of scheduled
  tokens times running hypotheses, and its rows are, group by group and hypothesis by
  hypothesis, the prompt token at the absolute position while that is below the prompt
  length and the generated token at the offset past the prompt otherwise. A group whose
  prompt length equals the sequence length of the prompt step is given the processed-token
  count 0 there; when the sampling policy ends each iteration by adding the scheduled
  tokens to the processed ones, such a group leaves the prompt phase with all of its
  prompt processed, every later step keeps it so, and from then on its rows are generated
  tokens only. The prompt ids are read only below the prompt length.
\<close>

theorem next_input_ids:
  assumes avail: "\<forall>p \<in> set active. \<forall>sequence \<in> set (running_sequences (store_of p)).
                    num_processed_tokens (store_of p)
                      < length (prompt_ids (store_of p)) + length (generated_ids sequence)"
    and keys: "\<forall>p \<in> set active. offsets (request_id (store_of p)) \<noteq> None"
  shows "(\<exists>scheduled total_num_tokens new_input_ids beams.
            schedule_step store_of active = (scheduled, total_num_tokens) \<and>
            build_step_inputs env sampler_in offsets scheduled active total_num_tokens
              = Inr (new_input_ids, beams) \<and>
            total_num_tokens
              = sum_list (map (\<lambda>p. num_scheduled_tokens (scheduled p) * num_running_seqs (scheduled p))
                            active) \<and>
            shape new_input_ids = [total_num_tokens, 1] \<and>
            length (data new_input_ids) = total_num_tokens \<and>
            data new_input_ids = concat (map (\<lambda>p. spec_group_rows (scheduled p)) active)) \<and>
         (\<forall>p \<in> set sequence_groups.
            get_prompt_len (initial p) = sequence_len \<longrightarrow>
              num_processed_tokens (schedule_prompt sequence_len sequence_groups initial p) = 0) \<and>
         (\<forall>st p. finishes_iteration env \<and>
            prompt_phase env engine input_ids attention_mask sampler_in initial sequence_groups
              position_ids m_embedding = Inr st \<and>
            p \<in> set sequence_groups \<and>
            get_prompt_len (initial p) = shape (t_logits (m_llm st)) ! 1 \<longrightarrow>
              num_processed_tokens (groups st p) = get_prompt_len (groups st p)) \<and>
         (\<forall>st st' p. finishes_iteration env \<and>
            generation_step env m_embedding has_position_ids st = Inr st' \<and>
            p \<in> set (active_sequence_groups st) \<and>
            get_prompt_len (groups st p) \<le> num_processed_tokens (groups st p) \<longrightarrow>
              get_prompt_len (groups st' p) \<le> num_processed_tokens (groups st' p)) \<and>
         (\<forall>g. get_prompt_len g \<le> num_processed_tokens g \<longrightarrow>
            spec_group_rows g
              = concat (map (\<lambda>sequence.
                               map (\<lambda>token_id. generated_ids sequence
                                                  ! (num_processed_tokens g + token_id - get_prompt_len g))
                                 [0..<num_scheduled_tokens g])
                          (running_sequences g))) \<and>
         (\<forall>(g :: 'f sequence_group) sequence position.
            token_at g sequence position
              = (if position < get_prompt_len g then Inr (prompt_ids g ! position)
                 else subscript (generated_ids sequence) (position - get_prompt_len g)))"
proof (intro conjI)
  let ?scheduled = "\<lambda>p. if p \<in> set active then schedule_tokens 1 (store_of p) else store_of p"
  let ?total = "sum_list (map (\<lambda>p. num_running_seqs (store_of p)) active)"
  let ?new = "\<lparr>shape = [?total, 1], data = concat (map (\<lambda>p. spec_group_rows (?scheduled p)) active)\<rparr>"
  have s: "schedule_step store_of active = (?scheduled, ?total)"
    by (rule schedule_step_eq)
  have a: "\<forall>p \<in> set active. \<forall>sequence \<in> set (running_sequences (?scheduled p)).
             num_processed_tokens (?scheduled p) + num_scheduled_tokens (?scheduled p)
               \<le> length (prompt_ids (?scheduled p)) + length (generated_ids sequence)"
    using avail by (auto simp add: schedule_tokens_def Suc_le_eq)
  have k: "\<forall>p \<in> set active. offsets (request_id (?scheduled p)) \<noteq> None"
    using keys by (simp add: schedule_tokens_def)
  have t: "?total = sum_list (map (\<lambda>p. length (running_sequences (?scheduled p))
                                          * num_scheduled_tokens (?scheduled p)) active)"
    by (rule arg_cong [where f = sum_list]) (simp add: schedule_tokens_def num_running_seqs_def)
  have t': "?total = sum_list (map (\<lambda>p. num_scheduled_tokens (?scheduled p) * num_running_seqs (?scheduled p))
                                 active)"
    by (rule arg_cong [where f = sum_list]) (simp add: schedule_tokens_def num_running_seqs_def)
  have rows: "length (concat (map (\<lambda>p. spec_group_rows (?scheduled p)) active)) = ?total"
    unfolding t by (simp add: length_concat comp_def length_spec_group_rows)
  from build_step_inputs_spec [where store_of = ?scheduled and env = env and sampler_in = sampler_in,
      OF a k t]
  obtain beams where
    b: "build_step_inputs env sampler_in offsets ?scheduled active ?total = Inr (?new, beams)"
    by blast
  show "\<exists>scheduled total_num_tokens new_input_ids beams.
            schedule_step store_of active = (scheduled, total_num_tokens) \<and>
            build_step_inputs env sampler_in offsets scheduled active total_num_tokens
              = Inr (new_input_ids, beams) \<and>
            total_num_tokens
              = sum_list (map (\<lambda>p. num_scheduled_tokens (scheduled p) * num_running_seqs (scheduled p))
                            active) \<and>
            shape new_input_ids = [total_num_tokens, 1] \<and>
            length (data new_input_ids) = total_num_tokens \<and>
            data new_input_ids = concat (map (\<lambda>p. spec_group_rows (scheduled p)) active)"
    using s b t' rows
    by (intro exI [of _ ?scheduled] exI [of _ ?total] exI [of _ ?new] exI [of _ beams]) simp
next
  show "\<forall>p \<in> set sequence_groups.
          get_prompt_len (initial p) = sequence_len \<longrightarrow>
            num_processed_tokens (schedule_prompt sequence_len sequence_groups initial p) = 0"
    by (auto simp add: schedule_prompt_eq get_prompt_len_def size_t_sub_self)
next
  show "\<forall>st p. finishes_iteration env \<and>
            prompt_phase env engine input_ids attention_mask sampler_in initial sequence_groups
              position_ids m_embedding = Inr st \<and>
            p \<in> set sequence_groups \<and>
            get_prompt_len (initial p) = shape (t_logits (m_llm st)) ! 1 \<longrightarrow>
              num_processed_tokens (groups st p) = get_prompt_len (groups st p)"
  proof (intro allI impI, elim conjE)
    fix st p
    assume f: "finishes_iteration env"
      and pp: "prompt_phase env engine input_ids attention_mask sampler_in initial sequence_groups
                 position_ids m_embedding = Inr st"
      and p: "p \<in> set sequence_groups"
      and l: "get_prompt_len (initial p) = shape (t_logits (m_llm st)) ! 1"
    let ?len = "shape (t_logits (m_llm st)) ! 1"
    let ?scheduled = "schedule_prompt ?len sequence_groups initial"
    have g: "groups st = snd (sample env sampler_in ?scheduled sequence_groups (t_logits (m_llm st)))"
      using prompt_phase_Inr [OF pp] by simp
    have "num_processed_tokens (groups st p)
            = num_processed_tokens (?scheduled p) + num_scheduled_tokens (?scheduled p)"
      and pr: "prompt_ids (groups st p) = prompt_ids (?scheduled p)"
      using f p unfolding finishes_iteration_def g by blast+
    moreover have "num_processed_tokens (?scheduled p) = 0" "num_scheduled_tokens (?scheduled p) = ?len"
      "prompt_ids (?scheduled p) = prompt_ids (initial p)"
      using p l by (simp_all add: schedule_prompt_eq get_prompt_len_def size_t_sub_self)
    ultimately show "num_processed_tokens (groups st p) = get_prompt_len (groups st p)"
      using l by (simp add: get_prompt_len_def)
  qed
next
  show "\<forall>st st' p. finishes_iteration env \<and>
            generation_step env m_embedding has_position_ids st = Inr st' \<and>
            p \<in> set (active_sequence_groups st) \<and>
            get_prompt_len (groups st p) \<le> num_processed_tokens (groups st p) \<longrightarrow>
              get_prompt_len (groups st' p) \<le> num_processed_tokens (groups st' p)"
  proof (intro allI impI, elim conjE)
    fix st st' p
    assume f: "finishes_iteration env"
      and gs: "generation_step env m_embedding has_position_ids st = Inr st'"
      and p: "p \<in> set (active_sequence_groups st)"
      and le: "get_prompt_len (groups st p) \<le> num_processed_tokens (groups st p)"
    let ?scheduled = "fst (schedule_step (groups st) (active_sequence_groups st))"
    have g: "groups st' = snd (sample env (sampler st) ?scheduled (active_sequence_groups st)
                                 (t_logits (m_llm st')))"
      by (rule generation_step_Inr [OF gs])
    have "num_processed_tokens (groups st' p)
            = num_processed_tokens (?scheduled p) + num_scheduled_tokens (?scheduled p)"
      and "prompt_ids (groups st' p) = prompt_ids (?scheduled p)"
      using f p unfolding finishes_iteration_def g by blast+
    moreover have "num_processed_tokens (?scheduled p) = num_processed_tokens (groups st p)"
      "prompt_ids (?scheduled p) = prompt_ids (groups st p)"
      using p by (simp_all add: schedule_step_eq schedule_tokens_def)
    ultimately show "get_prompt_len (groups st' p) \<le> num_processed_tokens (groups st' p)"
      using le by (simp add: get_prompt_len_def)
  qed
next
  show "\<forall>g. get_prompt_len g \<le> num_processed_tokens g \<longrightarrow>
            spec_group_rows g
              = concat (map (\<lambda>sequence.
                               map (\<lambda>token_id. generated_ids sequence
                                                  ! (num_processed_tokens g + token_id - get_prompt_len g))
                                 [0..<num_scheduled_tokens g])
                          (running_sequences g))"
    by (simp add: get_prompt_len_def spec_group_rows_generated)
next
  show "\<forall>(g :: 'f sequence_group) sequence position.
            token_at g sequence position
              = (if position < get_prompt_len g then Inr (prompt_ids g ! position)
                 else subscript (generated_ids sequence) (position - get_prompt_len g))"
    by (simp add: token_at_def subscript_def get_prompt_len_def)
qed

text \<open>Witness for C4: one request with a prompt of three tokens, all processed, and one
  generated token; and the prompt phase of the same request with the example policy.\<close>

theorem next_input_ids_witness:
  "(\<exists>scheduled new_input_ids beams.
      schedule_step (\<lambda>p. (example_group p [5, 6, 7] 1)
                            \<lparr>num_processed_tokens := 3,
                              running_sequences := [example_sequence 0 [40] Reason_NONE]\<rparr>) [0]
        = (scheduled, 1) \<and>
      build_step_inputs (example_env 3) example_sampler [0 \<mapsto> 0] scheduled [0] 1
        = Inr (new_input_ids, beams) \<and>
      new_input_ids = \<lparr>shape = [1, 1], data = [40]\<rparr>) \<and>
   finishes_iteration (example_env 3) \<and>
   (\<exists>st. prompt_phase (example_env 3) example_engine
            (Token_ids \<lparr>shape = [1, 3], data = [5, 6, 7]\<rparr>) \<lparr>shape = [1, 3], data = [1, 1, 1]\<rparr>
            example_sampler (\<lambda>p. example_group p [5, 6, 7] 1) [0] None None = Inr st \<and>
         get_prompt_len (example_group 0 [5, 6, 7] 1) = shape (t_logits (m_llm st)) ! 1 \<and>
         num_processed_tokens (groups st 0) = 3)"
proof -
  let ?store = "\<lambda>p. (example_group p [5, 6, 7] 1)
                        \<lparr>num_processed_tokens := 3,
                          running_sequences := [example_sequence 0 [40] Reason_NONE]\<rparr>"
  let ?initial = "\<lambda>p. example_group p [5, 6, 7] 1"
  let ?input = "Token_ids \<lparr>shape = [1, 3], data = [5, 6, 7]\<rparr> :: unit model_input"
  let ?mask = "\<lparr>shape = [1, 3], data = [1, 1, 1]\<rparr> :: int64 tensor"
  have avail: "\<forall>p \<in> set [0]. \<forall>sequence \<in> set (running_sequences (?store p)).
                 num_processed_tokens (?store p)
                   < length (prompt_ids (?store p)) + length (generated_ids sequence)"
    by (simp add: example_group_def example_sequence_def)
  have keys: "\<forall>p \<in> set [0]. [0 \<mapsto> 0 :: nat] (request_id (?store p)) \<noteq> None"
    by (simp add: example_group_def)
  note T = next_input_ids [where store_of = ?store and active = "[0]" and offsets = "[0 \<mapsto> 0]"
      and env = "example_env 3" and sampler_in = example_sampler and initial = ?initial
      and sequence_groups = "[0]" and engine = example_engine and input_ids = ?input
      and attention_mask = ?mask and position_ids = None and m_embedding = None, OF avail keys]
  let ?scheduled = "\<lambda>p. if p \<in> set [0 :: nat] then schedule_tokens 1 (?store p) else ?store p"
  have one: "sum_list (map (\<lambda>p. num_running_seqs (?store p)) [0]) = 1"
    by (simp add: num_running_seqs_def)
  have s: "schedule_step ?store [0] = (?scheduled, 1)"
    by (simp only: schedule_step_eq one)
  from T [THEN conjunct1] s obtain new_input_ids beams where
    b: "build_step_inputs (example_env 3) example_sampler [0 \<mapsto> 0] ?scheduled [0] 1
          = Inr (new_input_ids, beams)"
       "shape new_input_ids = [1, 1]"
       "data new_input_ids = concat (map (\<lambda>p. spec_group_rows (?scheduled p)) [0])"
    by auto
  have "concat (map (\<lambda>p. spec_group_rows (?scheduled p)) [0]) = [40]"
    by (simp add: spec_group_rows_def spec_sequence_rows_def spec_token_def schedule_tokens_def
        example_group_def example_sequence_def)
  then have new: "new_input_ids = \<lparr>shape = [1, 1], data = [40]\<rparr>"
    using b(2,3) by (cases new_input_ids) simp
  have f: "finishes_iteration (example_env 3)"
    by (rule example_finishes_iteration)
  have "\<exists>st. prompt_phase (example_env 3) example_engine ?input ?mask example_sampler ?initial [0]
               None None = Inr st \<and>
             get_prompt_len (?initial 0) = shape (t_logits (m_llm st)) ! 1 \<and>
             get_prompt_len (groups st 0) = 3"
    by (simp add: example_defs orchestrator_defs and_then_def Let_def)
  then obtain st where
    st: "prompt_phase (example_env 3) example_engine ?input ?mask example_sampler ?initial [0]
           None None = Inr st"
        "get_prompt_len (?initial 0) = shape (t_logits (m_llm st)) ! 1"
        "get_prompt_len (groups st 0) = 3"
    by blast
  have "num_processed_tokens (groups st 0) = get_prompt_len (groups st 0)"
    using T [THEN conjunct2, THEN conjunct2, THEN conjunct1, rule_format, of st 0] f st(1,2)
    by simp
  then have "num_processed_tokens (groups st 0) = 3" using st(3) by simp
  then show ?thesis using s b(1) new f st(1,2) by blast
qed

end
